theory Spec2Isabelle
  imports Complex_Main "HOL-Library.AList"
begin

section \<open>The world \<open>main.py\<close> runs in\<close>

text \<open>
  \<open>main.py\<close> holds two functions, \<open>load_latest_checkpoints\<close> and \<open>eval_models\<close>.
  Both are sequences of calls into the operating system (\<open>os.path.isdir\<close>,
  \<open>os.listdir\<close>, \<open>os.path.getmtime\<close>, \<open>os.path.exists\<close>), into pyplot, and into
  three collaborators whose code is elsewhere: the model loader
  \<open>AutoModelForSequenceClassification.from_pretrained\<close>, the explainer classes with
  \<open>Evaluator\<close>, and \<open>Evaluator.evaluate_infidelity_mask_top_k\<close>.

  The embedding threads a \<open>world\<close> record through the two functions. An exception is a
  value \<open>Inl e\<close> of the result; the world at the raise is returned with it. The loader
  and the scorer are parameters that may return \<open>Inl\<close>, and so is the renderer
  \<open>plt.savefig\<close> draws the figure with; \<open>savefig\<close> also raises when the file cannot be
  created. Constructing an explainer or an \<open>Evaluator\<close> allocates an object, and the
  pyplot calls that only add to the figure are taken to succeed.
  Python floats (modification times, scores, \<open>ptg\<close>) are only passed on and compared,
  never computed with; they are modelled by \<open>real\<close>. The counter of the file name probe
  and the bar positions \<open>range(len(...))\<close> are never negative and are modelled by \<open>nat\<close>.
\<close>

datatype error =
  FileNotFoundError string
  | NotADirectoryError string
  | IsADirectoryError string
  | Raised string

subsection \<open>Filesystem\<close>

text \<open>
  The filesystem is a finite store from the path strings the program passes to the
  operating system to nodes. A directory holds the names \<open>os.listdir\<close> returns, in the
  order it returns them. A name that is listed but has no node of its own (a dangling
  link) makes \<open>os.path.getmtime\<close> raise, as it does in Python.
\<close>

datatype node = Dir real "string list" | File real

fun mtime :: "node \<Rightarrow> real" where
  "mtime (Dir t ns) = t"
| "mtime (File t) = t"

type_synonym filesystem = "(string \<times> node) list"

definition os_path_exists :: "filesystem \<Rightarrow> string \<Rightarrow> bool" where
  "os_path_exists fs p = (case map_of fs p of None \<Rightarrow> False | Some n \<Rightarrow> True)"

definition os_path_isdir :: "filesystem \<Rightarrow> string \<Rightarrow> bool" where
  "os_path_isdir fs p = (case map_of fs p of Some (Dir t ns) \<Rightarrow> True | _ \<Rightarrow> False)"

definition os_path_isfile :: "filesystem \<Rightarrow> string \<Rightarrow> bool" where
  "os_path_isfile fs p = (case map_of fs p of Some (File t) \<Rightarrow> True | _ \<Rightarrow> False)"

definition os_listdir :: "filesystem \<Rightarrow> string \<Rightarrow> error + string list" where
  "os_listdir fs p =
     (case map_of fs p of
        None \<Rightarrow> Inl (FileNotFoundError p)
      | Some (File t) \<Rightarrow> Inl (NotADirectoryError p)
      | Some (Dir t ns) \<Rightarrow> Inr ns)"

definition os_path_getmtime :: "filesystem \<Rightarrow> string \<Rightarrow> error + real" where
  "os_path_getmtime fs p =
     (case map_of fs p of
        None \<Rightarrow> Inl (FileNotFoundError p)
      | Some n \<Rightarrow> Inr (mtime n))"

text \<open>\<open>os.path.join(a, b)\<close> of \<open>posixpath\<close>, for one component \<open>b\<close>.\<close>

definition os_path_join :: "string \<Rightarrow> string \<Rightarrow> string" where
  "os_path_join a b =
     (if b \<noteq> [] \<and> hd b = CHR ''/'' then b
      else if a = [] \<or> last a = CHR ''/'' then a @ b
      else a @ ''/'' @ b)"

subsection \<open>pyplot's current figure\<close>

text \<open>
  pyplot keeps one implicit current figure. \<open>plt.bar\<close> adds one rectangle per position
  to its axes, next to whatever the axes already hold; \<open>plt.xticks\<close>, \<open>plt.xlabel\<close>,
  \<open>plt.ylabel\<close> and \<open>plt.title\<close> replace the ticks, the labels and the title;
  \<open>plt.savefig\<close> writes the figure as it is and leaves it in place.
\<close>

record figure =
  bars :: "(nat \<times> real) list"
  xticks :: "(nat \<times> string) list"
  xlabel :: string
  ylabel :: string
  title :: string

subsection \<open>Output and the world record\<close>

text \<open>Each \<open>print\<close> call of the source is recorded with the values it interpolates.\<close>

datatype event =
  LoadingModels string
  | Loaded string string
  | CreatingEvaluators "string option"
  | EvaluatingInfidelity string
  | InfidelityOf string string real
  | ChartSaved string

text \<open>
  \<open>loads\<close> lists the paths \<open>from_pretrained\<close> was called on and \<open>saved\<close> the
  \<open>savefig\<close> calls (path and image), both in call order. \<open>rng\<close> is the state of the
  random sampler the scorer draws from, \<open>next_id\<close> the identity the next constructed
  object gets, and \<open>clock\<close> the time a file written now is stamped with.
\<close>

record 'r world =
  fsys :: filesystem
  clock :: real
  rng :: 'r
  fig :: figure
  next_id :: nat
  stdout :: "event list"
  loads :: "string list"
  saved :: "(string \<times> figure) list"

definition print :: "event \<Rightarrow> 'r world \<Rightarrow> 'r world" where
  "print e w = w\<lparr>stdout := stdout w @ [e]\<rparr>"

section \<open>\<open>load_latest_checkpoints\<close>\<close>

text \<open>
  \<open>sorted(xs, key=k, reverse=True)\<close>: the keys are computed first, left to right (the
  first failing one raises); the sort is stable, and \<open>reverse=True\<close> keeps the original
  order of entries with equal keys (the list is reversed, sorted ascending, and
  reversed again).
\<close>

fun getmtime_keys :: "filesystem \<Rightarrow> string list \<Rightarrow> error + (real \<times> string) list" where
  "getmtime_keys fs [] = Inr []"
| "getmtime_keys fs (p # ps) =
     (case os_path_getmtime fs p of
        Inl e \<Rightarrow> Inl e
      | Inr t \<Rightarrow>
         (case getmtime_keys fs ps of
            Inl e \<Rightarrow> Inl e
          | Inr kps \<Rightarrow> Inr ((t, p) # kps)))"

definition sorted_reverse :: "('k::linorder \<times> 'a) list \<Rightarrow> 'a list" where
  "sorted_reverse kxs = map snd (rev (sort_key fst (rev kxs)))"

definition sorted_by_getmtime :: "filesystem \<Rightarrow> string list \<Rightarrow> error + string list" where
  "sorted_by_getmtime fs ps =
     (case getmtime_keys fs ps of
        Inl e \<Rightarrow> Inl e
      | Inr kps \<Rightarrow> Inr (sorted_reverse kps))"

text \<open>\<open>if not arch\<close>: \<open>None\<close> and the empty string are the falsy values of \<open>arch\<close>.\<close>

fun falsy :: "string option \<Rightarrow> bool" where
  "falsy None = True"
| "falsy (Some s) = (s = [])"

text \<open>
  The body of the loop over \<open>os.listdir(path)\<close> (lines 90 to 111), for one
  \<open>model_dir\<close>. \<open>from_pretrained\<close> is the loader, \<open>class_name m\<close> is
  \<open>m.__class__.__name__\<close>. The dictionary \<open>models\<close> is an association list in insertion
  order; \<open>models[model_dir] = model\<close> is \<open>AList.update\<close>, which replaces the value of a
  key in place and appends a new key.
\<close>

definition load_dir ::
  "(string \<Rightarrow> error + 'm) \<Rightarrow> ('m \<Rightarrow> string) \<Rightarrow> string \<Rightarrow> string
    \<Rightarrow> (string \<times> 'm) list \<times> string option \<Rightarrow> 'r world
    \<Rightarrow> 'r world \<times> (error + (string \<times> 'm) list \<times> string option)" where
  "load_dir from_pretrained class_name path model_dir st w =
     (let model_path = os_path_join path model_dir in
      if os_path_isdir (fsys w) model_path then
        (case os_listdir (fsys w) model_path of
           Inl e \<Rightarrow> (w, Inl e)
         | Inr names \<Rightarrow>
            (case sorted_by_getmtime (fsys w) (map (os_path_join model_path) names) of
               Inl e \<Rightarrow> (w, Inl e)
             | Inr [] \<Rightarrow> (w, Inr st)
             | Inr (latest_checkpoint # older) \<Rightarrow>
                (let w1 = w\<lparr>loads := loads w @ [latest_checkpoint]\<rparr> in
                 case from_pretrained latest_checkpoint of
                   Inl e \<Rightarrow> (w1, Inl e)
                 | Inr model \<Rightarrow>
                    (print (Loaded model_path latest_checkpoint) w1,
                     Inr (AList.update model_dir model (fst st),
                          if falsy (snd st) then Some (class_name model) else snd st)))))
      else (w, Inr st))"

fun load_loop ::
  "(string \<Rightarrow> error + 'm) \<Rightarrow> ('m \<Rightarrow> string) \<Rightarrow> string \<Rightarrow> string list
    \<Rightarrow> (string \<times> 'm) list \<times> string option \<Rightarrow> 'r world
    \<Rightarrow> 'r world \<times> (error + (string \<times> 'm) list \<times> string option)" where
  "load_loop from_pretrained class_name path [] st w = (w, Inr st)"
| "load_loop from_pretrained class_name path (model_dir # rest) st w =
     (case load_dir from_pretrained class_name path model_dir st w of
        (w1, Inl e) \<Rightarrow> (w1, Inl e)
      | (w1, Inr st1) \<Rightarrow> load_loop from_pretrained class_name path rest st1 w1)"

definition not_a_directory_message :: "string \<Rightarrow> string" where
  "not_a_directory_message path =
     ''The directory '' @ [CHR 0x27] @ path @ [CHR 0x27]
       @ '' does not exist or is not a directory.''"

definition load_latest_checkpoints ::
  "(string \<Rightarrow> error + 'm) \<Rightarrow> ('m \<Rightarrow> string) \<Rightarrow> string \<Rightarrow> 'r world
    \<Rightarrow> 'r world \<times> (error + (string \<times> 'm) list \<times> string option)" where
  "load_latest_checkpoints from_pretrained class_name path w =
     (if \<not> os_path_isdir (fsys w) path
      then (w, Inl (FileNotFoundError (not_a_directory_message path)))
      else
        (case os_listdir (fsys w) path of
           Inl e \<Rightarrow> (w, Inl e)
         | Inr names \<Rightarrow> load_loop from_pretrained class_name path names ([], None) w))"

section \<open>\<open>eval_models\<close>\<close>

subsection \<open>The evaluator matrix (lines 29 to 34)\<close>

text \<open>
  The explainer classes the file imports, with their \<open>__name__\<close>. An explainer and an
  \<open>Evaluator\<close> are objects: each constructor call takes the next identity of the world.
\<close>

datatype explainer_class = SHAP | LIME | IG

fun name_of :: "explainer_class \<Rightarrow> string" where
  "name_of SHAP = ''SHAP''"
| "name_of LIME = ''LIME''"
| "name_of IG = ''IG''"

record ('m, 't, 'd) explainer_obj =
  explainer_id :: nat
  explainer_class :: explainer_class
  model :: 'm
  tokenizer :: 't
  device :: 'd

record ('m, 't, 'd) evaluator_obj =
  evaluator_id :: nat
  explainer :: "('m, 't, 'd) explainer_obj"

definition new_explainer ::
  "explainer_class \<Rightarrow> 'm \<Rightarrow> 't \<Rightarrow> 'd \<Rightarrow> 'r world
    \<Rightarrow> 'r world \<times> ('m, 't, 'd) explainer_obj" where
  "new_explainer c m tok dev w =
     (w\<lparr>next_id := next_id w + 1\<rparr>,
      \<lparr>explainer_id = next_id w, explainer_class = c, model = m,
       tokenizer = tok, device = dev\<rparr>)"

definition new_evaluator ::
  "('m, 't, 'd) explainer_obj \<Rightarrow> 'r world \<Rightarrow> 'r world \<times> ('m, 't, 'd) evaluator_obj" where
  "new_evaluator x w =
     (w\<lparr>next_id := next_id w + 1\<rparr>, \<lparr>evaluator_id = next_id w, explainer = x\<rparr>)"

text \<open>
  The inner loop over \<open>models.items()\<close>.
  \<open>evaluators_dict[explainer.__name__][name] = evaluator\<close> looks the inner dictionary
  up and stores into it in place; the key is always present, line 31 has just set it.
\<close>

fun build_row ::
  "explainer_class \<Rightarrow> (string \<times> 'm) list \<Rightarrow> 't \<Rightarrow> 'd
    \<Rightarrow> (string \<times> (string \<times> ('m, 't, 'd) evaluator_obj) list) list \<Rightarrow> 'r world
    \<Rightarrow> 'r world \<times> (string \<times> (string \<times> ('m, 't, 'd) evaluator_obj) list) list" where
  "build_row c [] tok dev evaluators_dict w = (w, evaluators_dict)"
| "build_row c ((name, m) # rest) tok dev evaluators_dict w =
     (case new_explainer c m tok dev w of
        (w1, x) \<Rightarrow>
          (case new_evaluator x w1 of
             (w2, evaluator) \<Rightarrow>
               build_row c rest tok dev
                 (AList.map_entry (name_of c) (AList.update name evaluator) evaluators_dict)
                 w2))"

fun build_evaluators ::
  "explainer_class list \<Rightarrow> (string \<times> 'm) list \<Rightarrow> 't \<Rightarrow> 'd
    \<Rightarrow> (string \<times> (string \<times> ('m, 't, 'd) evaluator_obj) list) list \<Rightarrow> 'r world
    \<Rightarrow> 'r world \<times> (string \<times> (string \<times> ('m, 't, 'd) evaluator_obj) list) list" where
  "build_evaluators [] models tok dev evaluators_dict w = (w, evaluators_dict)"
| "build_evaluators (c # rest) models tok dev evaluators_dict w =
     (case build_row c models tok dev (AList.update (name_of c) [] evaluators_dict) w of
        (w1, evaluators_dict1) \<Rightarrow> build_evaluators rest models tok dev evaluators_dict1 w1)"

subsection \<open>Scoring (lines 38 to 43)\<close>

text \<open>
  \<open>score\<close> is \<open>Evaluator.evaluate_infidelity_mask_top_k\<close>: from the evaluator, the
  test set, \<open>k\<close>, \<open>ptg\<close> and the sampler's state it gives the sampler's next state and
  a score, or raises.
\<close>

fun score_loop ::
  "(('m, 't, 'd) evaluator_obj \<Rightarrow> 'ds \<Rightarrow> int \<Rightarrow> real \<Rightarrow> 'r \<Rightarrow> 'r \<times> (error + real))
    \<Rightarrow> 'ds \<Rightarrow> real \<Rightarrow> string \<Rightarrow> (string \<times> ('m, 't, 'd) evaluator_obj) list
    \<Rightarrow> (string \<times> real) list \<Rightarrow> 'r world
    \<Rightarrow> 'r world \<times> (error + (string \<times> real) list)" where
  "score_loop score test_set ptg expl [] infidelities w = (w, Inr infidelities)"
| "score_loop score test_set ptg expl ((m, evaluator) # rest) infidelities w =
     (case score evaluator test_set 1 ptg (rng w) of
        (r, Inl e) \<Rightarrow> (w\<lparr>rng := r\<rparr>, Inl e)
      | (r, Inr infid) \<Rightarrow>
          score_loop score test_set ptg expl rest (AList.update m infid infidelities)
            (print (InfidelityOf expl m infid) (w\<lparr>rng := r\<rparr>)))"

subsection \<open>The bar chart (lines 46 to 50)\<close>

text \<open>How an f-string renders \<open>arch\<close>: \<open>None\<close> becomes the text \<open>None\<close>.\<close>

fun format_arch :: "string option \<Rightarrow> string" where
  "format_arch None = ''None''"
| "format_arch (Some s) = s"

definition plt_bar :: "nat list \<Rightarrow> real list \<Rightarrow> figure \<Rightarrow> figure" where
  "plt_bar x height f = f\<lparr>bars := bars f @ zip x height\<rparr>"

definition plt_xticks :: "nat list \<Rightarrow> string list \<Rightarrow> figure \<Rightarrow> figure" where
  "plt_xticks ticks labels f = f\<lparr>xticks := zip ticks labels\<rparr>"

definition chart_title :: "string \<Rightarrow> string option \<Rightarrow> string" where
  "chart_title expl arch =
     ''Infidelity of '' @ expl @ '' Explanations for Differently Pruned Versions of ''
       @ format_arch arch"

definition create_bar_chart ::
  "string \<Rightarrow> string option \<Rightarrow> (string \<times> real) list \<Rightarrow> figure \<Rightarrow> figure" where
  "create_bar_chart expl arch infidelities f =
     (let f1 = plt_bar [0..<length infidelities] (map snd infidelities) f;
          f2 = plt_xticks [0..<length infidelities] (map fst infidelities) f1;
          f3 = f2\<lparr>xlabel := ''Model''\<rparr>;
          f4 = f3\<lparr>ylabel := ''Infidelity''\<rparr>
      in f4\<lparr>title := chart_title expl arch\<rparr>)"

subsection \<open>The unique file name (lines 53 to 61) and \<open>savefig\<close>\<close>

text \<open>
  \<open>str(counter)\<close> for a counter that starts at 1 and is only incremented: the
  decimal digits, most significant first. \<open>digit\<close> is only applied to numbers below 10.
\<close>

definition digit :: "nat \<Rightarrow> char" where
  "digit d = ''0123456789'' ! d"

fun str_nat :: "nat \<Rightarrow> string" where
  "str_nat n = (if n < 10 then [digit n] else str_nat (n div 10) @ [digit (n mod 10)])"

declare str_nat.simps [simp del]

definition suffixed :: "string \<Rightarrow> string \<Rightarrow> nat \<Rightarrow> string" where
  "suffixed save_path ext counter = save_path @ ''_'' @ str_nat counter @ ext"

text \<open>\<open>os.path.dirname\<close> and \<open>os.path.basename\<close> of \<open>posixpath\<close>.\<close>

definition os_path_dirname :: "string \<Rightarrow> string" where
  "os_path_dirname p =
     (let head = rev (dropWhile (\<lambda>c. c \<noteq> CHR ''/'') (rev p)) in
      if head \<noteq> [] \<and> \<not> list_all (\<lambda>c. c = CHR ''/'') head
      then rev (dropWhile (\<lambda>c. c = CHR ''/'') (rev head))
      else head)"

definition os_path_basename :: "string \<Rightarrow> string" where
  "os_path_basename p = rev (takeWhile (\<lambda>c. c \<noteq> CHR ''/'') (rev p))"

text \<open>
  Opening \<open>p\<close> for writing, as \<open>savefig\<close> does with the file name it is given. It
  raises when \<open>p\<close> is a directory, when the directory \<open>p\<close> lies in does not exist, and
  when that is not a directory. Otherwise the file exists afterwards, stamped with
  the current time; a new file is entered in the listing of its directory. A name
  without a directory part lies in the working directory, which has no node of its own.
\<close>

definition open_for_writing :: "filesystem \<Rightarrow> real \<Rightarrow> string \<Rightarrow> error + filesystem" where
  "open_for_writing fs now p =
     (case map_of fs p of
        Some (Dir t ns) \<Rightarrow> Inl (IsADirectoryError p)
      | Some (File t) \<Rightarrow> Inr (AList.update p (File now) fs)
      | None \<Rightarrow>
          (if os_path_dirname p = [] then Inr (AList.update p (File now) fs)
           else
             (case map_of fs (os_path_dirname p) of
                None \<Rightarrow> Inl (FileNotFoundError p)
              | Some (File t) \<Rightarrow> Inl (NotADirectoryError p)
              | Some (Dir t ns) \<Rightarrow>
                  Inr (AList.update p (File now)
                        (AList.update (os_path_dirname p)
                           (Dir now (if os_path_basename p \<in> set ns then ns
                                     else ns @ [os_path_basename p]))
                           fs)))))"

text \<open>
  \<open>plt.savefig(file_path, format='png', dpi=300)\<close>. \<open>render\<close> is matplotlib's
  renderer: it draws the figure or raises. The figure is drawn first and the file
  opened after; when either raises, the error leaves \<open>savefig\<close> and nothing is
  written. Otherwise the call is logged with the figure as it is at that moment. The
  image format and the resolution are not represented.
\<close>

definition savefig ::
  "(figure \<Rightarrow> error + unit) \<Rightarrow> string \<Rightarrow> 'r world \<Rightarrow> 'r world \<times> (error + unit)" where
  "savefig render file_path w =
     (case render (fig w) of
        Inl e \<Rightarrow> (w, Inl e)
      | Inr u \<Rightarrow>
          (case open_for_writing (fsys w) (clock w) file_path of
             Inl e \<Rightarrow> (w, Inl e)
           | Inr fs \<Rightarrow>
               (w\<lparr>fsys := fs, saved := saved w @ [(file_path, fig w)]\<rparr>, Inr ())))"

text \<open>
  The probe loop ends because the filesystem holds finitely many paths and the
  suffixed names are pairwise different; this is what its termination proof needs.
\<close>

lemma digit_inject: "a < 10 \<Longrightarrow> b < 10 \<Longrightarrow> digit a = digit b \<Longrightarrow> a = b"
proof -
  have "distinct ''0123456789''" by simp
  moreover have "length ''0123456789'' = 10" by simp
  ultimately show "a < 10 \<Longrightarrow> b < 10 \<Longrightarrow> digit a = digit b \<Longrightarrow> a = b"
    unfolding digit_def by (metis nth_eq_iff_index_eq)
qed

lemma str_nat_not_Nil: "str_nat n \<noteq> []"
  by (subst str_nat.simps) simp

lemma str_nat_inject: "str_nat n = str_nat m \<Longrightarrow> n = m"
proof (induction n arbitrary: m rule: str_nat.induct)
  case (1 n)
  show ?case
  proof (cases "n < 10")
    case small_n: True
    show ?thesis
    proof (cases "m < 10")
      case True
      with small_n "1.prems" show ?thesis
        by (simp add: str_nat.simps [of n] str_nat.simps [of m] digit_inject)
    next
      case False
      with small_n "1.prems" show ?thesis
        using str_nat_not_Nil [of "m div 10"]
        by (simp add: str_nat.simps [of n] str_nat.simps [of m])
    qed
  next
    case big_n: False
    show ?thesis
    proof (cases "m < 10")
      case True
      with big_n "1.prems" show ?thesis
        using str_nat_not_Nil [of "n div 10"]
        by (simp add: str_nat.simps [of n] str_nat.simps [of m])
    next
      case False
      with big_n "1.prems"
      have eq: "str_nat (n div 10) = str_nat (m div 10)"
        and last: "digit (n mod 10) = digit (m mod 10)"
        by (simp_all add: str_nat.simps [of n] str_nat.simps [of m])
      from "1.IH" [OF big_n eq] have "n div 10 = m div 10" .
      moreover from last have "n mod 10 = m mod 10"
        by (intro digit_inject) simp_all
      ultimately show ?thesis
        by (metis div_mult_mod_eq)
    qed
  qed
qed

lemma suffixed_inject: "suffixed save_path ext a = suffixed save_path ext b \<Longrightarrow> a = b"
  by (simp add: suffixed_def str_nat_inject)

lemma inj_suffixed: "inj (suffixed save_path ext)"
  by (rule injI) (rule suffixed_inject)

lemma os_path_exists_dom: "os_path_exists fs p \<longleftrightarrow> p \<in> dom (map_of fs)"
  by (auto simp: os_path_exists_def split: option.splits)

lemma finite_taken: "finite {k. c \<le> k \<and> os_path_exists fs (suffixed save_path ext k)}"
proof -
  have "finite (suffixed save_path ext -` dom (map_of fs))"
    by (intro finite_vimageI finite_dom_map_of inj_suffixed)
  moreover have "{k. c \<le> k \<and> os_path_exists fs (suffixed save_path ext k)}
                   \<subseteq> suffixed save_path ext -` dom (map_of fs)"
    by (auto simp: os_path_exists_dom)
  ultimately show ?thesis
    by (rule rev_finite_subset)
qed

text \<open>
  Lines 57 to 61. The loop state is \<open>file_path\<close> and \<open>counter\<close>, as in the source:
  \<open>while os.path.exists(file_path): file_path = f'{save_path}_{counter}{ext}'; counter += 1\<close>.
\<close>

function unique_filename_loop ::
  "filesystem \<Rightarrow> string \<Rightarrow> string \<Rightarrow> string \<Rightarrow> nat \<Rightarrow> string" where
  "unique_filename_loop fs save_path ext file_path counter =
     (if os_path_exists fs file_path
      then unique_filename_loop fs save_path ext (suffixed save_path ext counter) (counter + 1)
      else file_path)"
  by pat_completeness auto

termination
proof (relation "measure (\<lambda>(fs, save_path, ext, file_path, counter).
          card {k. counter \<le> k \<and> os_path_exists fs (suffixed save_path ext k)}
            + (if os_path_exists fs file_path then 1 else 0))")
  show "wf (measure (\<lambda>(fs, save_path, ext, file_path, counter).
          card {k. counter \<le> k \<and> os_path_exists fs (suffixed save_path ext k)}
            + (if os_path_exists fs file_path then 1 else 0)))"
    by simp
next
  fix fs :: filesystem and save_path ext file_path :: string and counter :: nat
  assume ex: "os_path_exists fs file_path"
  let ?taken = "\<lambda>c. {k. c \<le> k \<and> os_path_exists fs (suffixed save_path ext k)}"
  show "((fs, save_path, ext, suffixed save_path ext counter, counter + 1),
         (fs, save_path, ext, file_path, counter))
        \<in> measure (\<lambda>(fs, save_path, ext, file_path, counter).
            card {k. counter \<le> k \<and> os_path_exists fs (suffixed save_path ext k)}
              + (if os_path_exists fs file_path then 1 else 0))"
  proof (cases "os_path_exists fs (suffixed save_path ext counter)")
    case True
    then have "?taken counter = insert counter (?taken (counter + 1))"
      by (auto simp: le_Suc_eq)
    moreover have "counter \<notin> ?taken (counter + 1)"
      by simp
    ultimately have "card (?taken counter) = Suc (card (?taken (counter + 1)))"
      using finite_taken [of "counter + 1" fs save_path ext] by simp
    with ex True show ?thesis by simp
  next
    case False
    then have "?taken counter = ?taken (counter + 1)"
      by (auto simp: le_Suc_eq) (metis Suc_leI le_neq_implies_less)
    with ex False show ?thesis by simp
  qed
qed

declare unique_filename_loop.simps [simp del]

definition unique_filename :: "filesystem \<Rightarrow> string \<Rightarrow> string \<Rightarrow> string" where
  "unique_filename fs save_path ext = unique_filename_loop fs save_path ext (save_path @ ext) 1"

text \<open>Lines 52 to 64: choose the file name, save the figure, report the path.\<close>

definition save_path_of :: "string \<Rightarrow> string option \<Rightarrow> string" where
  "save_path_of expl arch = ''results/figs/'' @ expl @ ''_topk_'' @ format_arch arch"

definition save_bar_chart ::
  "(figure \<Rightarrow> error + unit) \<Rightarrow> string \<Rightarrow> string option \<Rightarrow> 'r world
    \<Rightarrow> 'r world \<times> (error + unit)" where
  "save_bar_chart render expl arch w =
     (let save_path = save_path_of expl arch;
          ext = ''.png'';
          file_path = unique_filename (fsys w) save_path ext
      in case savefig render file_path w of
           (w1, Inl e) \<Rightarrow> (w1, Inl e)
         | (w1, Inr u) \<Rightarrow> (print (ChartSaved file_path) w1, Inr ()))"

subsection \<open>The loop over \<open>evaluators_dict.items()\<close> (lines 36 to 64) and \<open>eval_models\<close>\<close>

fun eval_loop ::
  "(('m, 't, 'd) evaluator_obj \<Rightarrow> 'ds \<Rightarrow> int \<Rightarrow> real \<Rightarrow> 'r \<Rightarrow> 'r \<times> (error + real))
    \<Rightarrow> (figure \<Rightarrow> error + unit) \<Rightarrow> string option \<Rightarrow> 'ds \<Rightarrow> real
    \<Rightarrow> (string \<times> (string \<times> ('m, 't, 'd) evaluator_obj) list) list \<Rightarrow> 'r world
    \<Rightarrow> 'r world \<times> (error + unit)" where
  "eval_loop score render arch test_set ptg [] w = (w, Inr ())"
| "eval_loop score render arch test_set ptg ((expl, evaluators) # rest) w =
     (case score_loop score test_set ptg expl evaluators [] (print (EvaluatingInfidelity expl) w) of
        (w1, Inl e) \<Rightarrow> (w1, Inl e)
      | (w1, Inr infidelities) \<Rightarrow>
          (case save_bar_chart render expl arch
                  (w1\<lparr>fig := create_bar_chart expl arch infidelities (fig w1)\<rparr>) of
             (w2, Inl e) \<Rightarrow> (w2, Inl e)
           | (w2, Inr u) \<Rightarrow> eval_loop score render arch test_set ptg rest w2))"

definition eval_models ::
  "(string \<Rightarrow> error + 'm) \<Rightarrow> ('m \<Rightarrow> string)
    \<Rightarrow> (('m, 't, 'd) evaluator_obj \<Rightarrow> 'ds \<Rightarrow> int \<Rightarrow> real \<Rightarrow> 'r \<Rightarrow> 'r \<times> (error + real))
    \<Rightarrow> (figure \<Rightarrow> error + unit)
    \<Rightarrow> string \<Rightarrow> 't \<Rightarrow> explainer_class list \<Rightarrow> 'ds \<Rightarrow> 'd \<Rightarrow> real \<Rightarrow> 'r world
    \<Rightarrow> 'r world \<times> (error + unit)" where
  "eval_models from_pretrained class_name score render path tok explainers test_set dev ptg w =
     (case load_latest_checkpoints from_pretrained class_name path (print (LoadingModels path) w) of
        (w1, Inl e) \<Rightarrow> (w1, Inl e)
      | (w1, Inr (models, arch)) \<Rightarrow>
          (case build_evaluators explainers models tok dev []
                  (print (CreatingEvaluators arch) w1) of
             (w2, evaluators_dict) \<Rightarrow>
               eval_loop score render arch test_set ptg evaluators_dict w2))"

section \<open>Notions the statements below use\<close>

text \<open>
  \<open>has_entries fs model_path\<close>: \<open>model_path\<close> is a directory with at least one
  entry. \<open>newest_entry fs model_path p\<close>: \<open>p\<close> is the path of an entry of
  \<open>model_path\<close>, and no entry of \<open>model_path\<close> has a later modification time.
\<close>

definition has_entries :: "filesystem \<Rightarrow> string \<Rightarrow> bool" where
  "has_entries fs model_path =
     (os_path_isdir fs model_path
      \<and> (case os_listdir fs model_path of Inl e \<Rightarrow> False | Inr names \<Rightarrow> names \<noteq> []))"

definition not_later :: "filesystem \<Rightarrow> string \<Rightarrow> string \<Rightarrow> bool" where
  "not_later fs q p =
     (case os_path_getmtime fs q of
        Inl e \<Rightarrow> False
      | Inr tq \<Rightarrow> (case os_path_getmtime fs p of Inl e \<Rightarrow> False | Inr tp \<Rightarrow> tq \<le> tp))"

definition newest_entry :: "filesystem \<Rightarrow> string \<Rightarrow> string \<Rightarrow> bool" where
  "newest_entry fs model_path p =
     (case os_listdir fs model_path of
        Inl e \<Rightarrow> False
      | Inr names \<Rightarrow>
          p \<in> set (map (os_path_join model_path) names)
          \<and> list_all (\<lambda>n. not_later fs (os_path_join model_path n) p) names)"

text \<open>
  The identities of the objects an evaluator matrix holds: for every \<open>Evaluator\<close> in
  it, the identity of its explainer and its own.
\<close>

definition row_ids :: "(string \<times> ('m, 't, 'd) evaluator_obj) list \<Rightarrow> nat list" where
  "row_ids row = concat (map (\<lambda>(name, e). [explainer_id (explainer e), evaluator_id e]) row)"

definition object_ids ::
  "(string \<times> (string \<times> ('m, 't, 'd) evaluator_obj) list) list \<Rightarrow> nat list" where
  "object_ids evaluators_dict = concat (map (\<lambda>(expl, row). row_ids row) evaluators_dict)"

text \<open>
  \<open>bound_to c tok dev (name, m) (name', e)\<close>: \<open>e\<close> is filed under the variant's name
  and wraps an explainer of class \<open>c\<close> built from the variant's model, \<open>tok\<close> and \<open>dev\<close>.
\<close>

definition bound_to ::
  "explainer_class \<Rightarrow> 't \<Rightarrow> 'd \<Rightarrow> string \<times> 'm \<Rightarrow> string \<times> ('m, 't, 'd) evaluator_obj \<Rightarrow> bool" where
  "bound_to c tok dev variant entry =
     (fst entry = fst variant
      \<and> explainer_class (explainer (snd entry)) = c
      \<and> model (explainer (snd entry)) = snd variant
      \<and> tokenizer (explainer (snd entry)) = tok
      \<and> device (explainer (snd entry)) = dev)"

text \<open>
  The row the inner loop files under one explainer class, when the variants' names are
  pairwise different: one new explainer and one new \<open>Evaluator\<close> per variant, with
  consecutive identities from \<open>n\<close> on.
\<close>

fun fresh_row ::
  "explainer_class \<Rightarrow> 't \<Rightarrow> 'd \<Rightarrow> nat \<Rightarrow> (string \<times> 'm) list
    \<Rightarrow> (string \<times> ('m, 't, 'd) evaluator_obj) list" where
  "fresh_row c tok dev n [] = []"
| "fresh_row c tok dev n ((name, m) # rest) =
     (name, \<lparr>evaluator_id = n + 1,
             explainer = \<lparr>explainer_id = n, explainer_class = c, model = m,
                          tokenizer = tok, device = dev\<rparr>\<rparr>)
       # fresh_row c tok dev (n + 2) rest"

text \<open>
  The aggregation as a function of the sampler's state alone. For one explainer
  class: the evaluators of its row are scored in the row's order, each from the
  sampler state the one before left; the result is the list of variant names with
  their scores, or the first error. For a matrix: its classes in order, each with its
  result.
\<close>

fun infidelity_result ::
  "(('m, 't, 'd) evaluator_obj \<Rightarrow> 'ds \<Rightarrow> int \<Rightarrow> real \<Rightarrow> 'r \<Rightarrow> 'r \<times> (error + real))
    \<Rightarrow> 'ds \<Rightarrow> real \<Rightarrow> (string \<times> ('m, 't, 'd) evaluator_obj) list \<Rightarrow> 'r
    \<Rightarrow> 'r \<times> (error + (string \<times> real) list)" where
  "infidelity_result score test_set ptg [] r = (r, Inr [])"
| "infidelity_result score test_set ptg ((m, evaluator) # rest) r =
     (case score evaluator test_set 1 ptg r of
        (r1, Inl e) \<Rightarrow> (r1, Inl e)
      | (r1, Inr infid) \<Rightarrow>
          (case infidelity_result score test_set ptg rest r1 of
             (r2, Inl e) \<Rightarrow> (r2, Inl e)
           | (r2, Inr result) \<Rightarrow> (r2, Inr ((m, infid) # result))))"

fun aggregate ::
  "(('m, 't, 'd) evaluator_obj \<Rightarrow> 'ds \<Rightarrow> int \<Rightarrow> real \<Rightarrow> 'r \<Rightarrow> 'r \<times> (error + real))
    \<Rightarrow> 'ds \<Rightarrow> real \<Rightarrow> (string \<times> (string \<times> ('m, 't, 'd) evaluator_obj) list) list \<Rightarrow> 'r
    \<Rightarrow> 'r \<times> (error + (string \<times> (string \<times> real) list) list)" where
  "aggregate score test_set ptg [] r = (r, Inr [])"
| "aggregate score test_set ptg ((expl, evaluators) # rest) r =
     (case infidelity_result score test_set ptg evaluators r of
        (r1, Inl e) \<Rightarrow> (r1, Inl e)
      | (r1, Inr result) \<Rightarrow>
          (case aggregate score test_set ptg rest r1 of
             (r2, Inl e) \<Rightarrow> (r2, Inl e)
           | (r2, Inr results) \<Rightarrow> (r2, Inr ((expl, result) # results))))"

definition score_lines :: "string \<Rightarrow> (string \<times> real) list \<Rightarrow> (string \<times> string \<times> real) list" where
  "score_lines expl result = map (\<lambda>(m, infid). (expl, m, infid)) result"

definition all_score_lines ::
  "(string \<times> (string \<times> real) list) list \<Rightarrow> (string \<times> string \<times> real) list" where
  "all_score_lines results = concat (map (\<lambda>(expl, result). score_lines expl result) results)"

text \<open>The scores a run has reported on its output: class name, variant name and score.\<close>

fun reported :: "event list \<Rightarrow> (string \<times> string \<times> real) list" where
  "reported [] = []"
| "reported (InfidelityOf expl m infid # es) = (expl, m, infid) # reported es"
| "reported (e # es) = reported es"

section \<open>The names the probe tries, and example worlds\<close>

text \<open>
  The names the probe of lines 57 to 61 tries, in order: \<open>save_path + ext\<close>, then the
  names with the suffixes \<open>_1\<close>, \<open>_2\<close>, and so on.
\<close>

fun candidate :: "string \<Rightarrow> string \<Rightarrow> nat \<Rightarrow> string" where
  "candidate save_path ext 0 = save_path @ ext"
| "candidate save_path ext (Suc n) = suffixed save_path ext (Suc n)"

text \<open>
  A small checkpoint tree and output directory: \<open>base\<close> holds two checkpoints, the
  newer listed last; \<open>pruned\<close> holds one; \<open>empty\<close> holds none; \<open>notes.txt\<close> is a plain
  file. Two SHAP charts are already in \<open>results/figs\<close>. In the examples a model is
  stood for by the path it was loaded from.
\<close>

definition example_fs :: filesystem where
  "example_fs =
     [(''./ckpts'', Dir 9 [''base'', ''empty'', ''notes.txt'', ''pruned'']),
      (''./ckpts/base'', Dir 8 [''ckpt_old'', ''ckpt_new'']),
      (''./ckpts/base/ckpt_old'', Dir 1 []),
      (''./ckpts/base/ckpt_new'', Dir 2 []),
      (''./ckpts/empty'', Dir 7 []),
      (''./ckpts/notes.txt'', File 6),
      (''./ckpts/pruned'', Dir 8 [''ckpt'']),
      (''./ckpts/pruned/ckpt'', Dir 3 []),
      (''results/figs'', Dir 5 [''SHAP_topk_Bert.png'', ''SHAP_topk_Bert_1.png'']),
      (''results/figs/SHAP_topk_Bert.png'', File 4),
      (''results/figs/SHAP_topk_Bert_1.png'', File 5)]"

definition empty_figure :: figure where
  "empty_figure = \<lparr>bars = [], xticks = [], xlabel = [], ylabel = [], title = []\<rparr>"

definition fresh_world :: "filesystem \<Rightarrow> nat world" where
  "fresh_world fs =
     \<lparr>fsys = fs, clock = 10, rng = 0, fig = empty_figure, next_id = 0,
      stdout = [], loads = [], saved = []\<rparr>"

definition example_loader :: "string \<Rightarrow> error + string" where
  "example_loader p = Inr p"

definition example_class_name :: "string \<Rightarrow> string" where
  "example_class_name m = ''Bert''"

text \<open>
  More checkpoint trees: one whose only subdirectory has no entries and that has no
  \<open>results/figs\<close>, one with a single variant holding a single checkpoint, and the
  first again with an empty \<open>results/figs\<close>.
\<close>

definition empty_ckpts_fs :: filesystem where
  "empty_ckpts_fs = [(''./ckpts'', Dir 2 [''empty'']), (''./ckpts/empty'', Dir 1 [])]"

definition one_variant_fs :: filesystem where
  "one_variant_fs =
     [(''./ckpts'', Dir 3 [''base'']),
      (''./ckpts/base'', Dir 2 [''ckpt'']),
      (''./ckpts/base/ckpt'', Dir 1 []),
      (''results'', Dir 1 [''figs'']),
      (''results/figs'', Dir 1 [])]"

definition empty_ckpts_with_figs_fs :: filesystem where
  "empty_ckpts_with_figs_fs =
     [(''./ckpts'', Dir 2 [''empty'']),
      (''./ckpts/empty'', Dir 1 []),
      (''results'', Dir 1 [''figs'']),
      (''results/figs'', Dir 1 [])]"

text \<open>A renderer that draws every figure.\<close>

definition example_render :: "figure \<Rightarrow> error + unit" where
  "example_render f = Inr ()"

text \<open>A world whose current figure already holds a bar, as after an earlier chart.\<close>

definition stale_figure_world :: "nat world" where
  "stale_figure_world =
     (fresh_world empty_ckpts_with_figs_fs)\<lparr>fig := empty_figure\<lparr>bars := [(0, 7)]\<rparr>\<rparr>"

text \<open>
  An example scorer: it advances the sampler's state and returns it as the score, but
  raises for a SHAP explainer of the model loaded from \<open>./ckpts/pruned/ckpt\<close>.
\<close>

definition example_score ::
  "(string, unit, unit) evaluator_obj \<Rightarrow> unit \<Rightarrow> int \<Rightarrow> real \<Rightarrow> nat \<Rightarrow> nat \<times> (error + real)" where
  "example_score evaluator test_set k ptg r =
     (r + 1,
      if explainer_class (explainer evaluator) = SHAP
         \<and> model (explainer evaluator) = ''./ckpts/pruned/ckpt''
      then Inl (Raised ''scoring failed'')
      else Inr (real r))"

text \<open>A collection of three variants.\<close>

definition three_variants :: "(string \<times> string) list" where
  "three_variants =
     [(''base'', ''./ckpts/base/ckpt''), (''l1unstruct'', ''./ckpts/l1unstruct/ckpt''),
      (''random'', ''./ckpts/random/ckpt'')]"

text \<open>A scorer that never raises: the score is the sampler's state after the draw.\<close>

definition steady_score ::
  "(string, unit, unit) evaluator_obj \<Rightarrow> unit \<Rightarrow> int \<Rightarrow> real \<Rightarrow> nat \<Rightarrow> nat \<times> (error + real)" where
  "steady_score evaluator test_set k ptg r = (r + 1, Inr (real r + 1))"

text \<open>A row of LIME evaluators for the two models of the first tree.\<close>

definition example_row :: "(string \<times> (string, unit, unit) evaluator_obj) list" where
  "example_row =
     [(''base'',
       \<lparr>evaluator_id = 1,
        explainer = \<lparr>explainer_id = 0, explainer_class = LIME,
                     model = ''./ckpts/base/ckpt_new'', tokenizer = (), device = ()\<rparr>\<rparr>),
      (''pruned'',
       \<lparr>evaluator_id = 3,
        explainer = \<lparr>explainer_id = 2, explainer_class = LIME,
                     model = ''./ckpts/pruned/ckpt'', tokenizer = (), device = ()\<rparr>\<rparr>)]"

section \<open>Discovery: an invalid root path\<close>

text \<open>
  C3. When \<open>path\<close> is not an existing directory, \<open>load_latest_checkpoints\<close> raises
  \<open>FileNotFoundError\<close> with a message that contains the path. It does so in the world
  it was called in: no loader call, no output, and no model collection is returned.
\<close>

theorem load_latest_checkpoints_invalid_path:
  assumes "\<not> os_path_isdir (fsys w) path"
  shows "\<exists>before after.
           load_latest_checkpoints from_pretrained class_name path w
             = (w, Inl (FileNotFoundError (before @ path @ after)))"
proof (intro exI)
  show "load_latest_checkpoints from_pretrained class_name path w
          = (w, Inl (FileNotFoundError
               ((''The directory '' @ [CHR 0x27]) @ path
                  @ ([CHR 0x27] @ '' does not exist or is not a directory.''))))"
    using assms by (simp add: load_latest_checkpoints_def not_a_directory_message_def)
qed

theorem load_latest_checkpoints_invalid_path_witness:
  "\<not> os_path_isdir (fsys (fresh_world example_fs)) ''./missing''
   \<and> (\<exists>before after.
         load_latest_checkpoints example_loader example_class_name ''./missing''
           (fresh_world example_fs)
         = (fresh_world example_fs, Inl (FileNotFoundError (before @ ''./missing'' @ after))))"
proof -
  have h: "\<not> os_path_isdir (fsys (fresh_world example_fs)) ''./missing''"
    by (simp add: fresh_world_def example_fs_def os_path_isdir_def)
  from load_latest_checkpoints_invalid_path [OF h, of example_loader example_class_name] h
  show ?thesis by simp
qed

section \<open>Chart export: the file name is always a new one\<close>

lemma unique_filename_loop_free:
  "\<not> os_path_exists fs (unique_filename_loop fs save_path ext file_path counter)"
proof (induction fs save_path ext file_path counter rule: unique_filename_loop.induct)
  case (1 fs save_path ext file_path counter)
  then show ?case
    by (subst unique_filename_loop.simps) simp
qed

lemma unique_filename_loop_first:
  "os_path_exists fs file_path \<Longrightarrow>
   \<exists>n\<ge>counter.
     unique_filename_loop fs save_path ext file_path counter = suffixed save_path ext n
     \<and> (\<forall>k. counter \<le> k \<and> k < n \<longrightarrow> os_path_exists fs (suffixed save_path ext k))"
proof (induction fs save_path ext file_path counter rule: unique_filename_loop.induct)
  case (1 fs save_path ext file_path counter)
  show ?case
  proof (cases "os_path_exists fs (suffixed save_path ext counter)")
    case True
    from "1.IH" [OF "1.prems" True] obtain n where n: "counter + 1 \<le> n"
      "unique_filename_loop fs save_path ext (suffixed save_path ext counter) (counter + 1)
         = suffixed save_path ext n"
      "\<forall>k. counter + 1 \<le> k \<and> k < n \<longrightarrow> os_path_exists fs (suffixed save_path ext k)"
      by blast
    have "\<forall>k. counter \<le> k \<and> k < n \<longrightarrow> os_path_exists fs (suffixed save_path ext k)"
    proof (intro allI impI)
      fix k assume k: "counter \<le> k \<and> k < n"
      show "os_path_exists fs (suffixed save_path ext k)"
      proof (cases "k = counter")
        case True with \<open>os_path_exists fs (suffixed save_path ext counter)\<close> show ?thesis by simp
      next
        case False with k n(3) show ?thesis by simp
      qed
    qed
    with n(1,2) "1.prems" show ?thesis
      by (subst unique_filename_loop.simps) (auto intro!: exI [of _ n])
  next
    case False
    with "1.prems" show ?thesis
      by (subst unique_filename_loop.simps, subst unique_filename_loop.simps)
         (auto intro!: exI [of _ counter])
  qed
qed

lemma unique_filename_candidate:
  "\<exists>n. unique_filename fs save_path ext = candidate save_path ext n
       \<and> (\<forall>k<n. os_path_exists fs (candidate save_path ext k))"
proof (cases "os_path_exists fs (save_path @ ext)")
  case False
  then have "unique_filename fs save_path ext = candidate save_path ext 0"
    by (simp add: unique_filename_def unique_filename_loop.simps)
  then show ?thesis by (intro exI [of _ 0]) simp
next
  case True
  from unique_filename_loop_first [OF True, of 1 save_path ext]
  obtain n where n: "1 \<le> n"
    "unique_filename fs save_path ext = suffixed save_path ext n"
    "\<forall>k. 1 \<le> k \<and> k < n \<longrightarrow> os_path_exists fs (suffixed save_path ext k)"
    unfolding unique_filename_def by blast
  from n(1) obtain m where m: "n = Suc m" by (cases n) simp_all
  have "\<forall>k<n. os_path_exists fs (candidate save_path ext k)"
  proof (intro allI impI)
    fix k assume "k < n"
    with n(3) True show "os_path_exists fs (candidate save_path ext k)"
      by (cases k) simp_all
  qed
  with n(2) m show ?thesis
    by (intro exI [of _ n]) simp
qed

lemma open_for_writing_new:
  assumes "\<not> os_path_exists fs p" and "open_for_writing fs now p = Inr fs'"
  shows "map_of fs' p = Some (File now)"
    and "os_path_exists fs q \<Longrightarrow>
           map_of fs' q = map_of fs q
           \<or> (q = os_path_dirname p \<and> os_path_isdir fs q \<and> os_path_isdir fs' q)"
proof -
  from assms(1) have none: "map_of fs p = None"
    by (simp add: os_path_exists_def split: option.splits)
  show "map_of fs' p = Some (File now)"
    using assms(2) none
    by (auto simp: open_for_writing_def update_conv' split: if_splits option.splits node.splits)
  assume q: "os_path_exists fs q"
  with none have "q \<noteq> p"
    by (auto simp: os_path_exists_def)
  with assms(2) none
  show "map_of fs' q = map_of fs q
        \<or> (q = os_path_dirname p \<and> os_path_isdir fs q \<and> os_path_isdir fs' q)"
    by (auto simp: open_for_writing_def update_conv' os_path_isdir_def
             split: if_splits option.splits node.splits)
qed

lemma savefig_cases:
  assumes "savefig render file_path w = (w', r)"
  shows "(\<exists>e. r = Inl e \<and> w' = w)
     \<or> (\<exists>fs. r = Inr () \<and> render (fig w) = Inr ()
           \<and> open_for_writing (fsys w) (clock w) file_path = Inr fs
           \<and> w' = w\<lparr>fsys := fs, saved := saved w @ [(file_path, fig w)]\<rparr>)"
proof (cases "render (fig w)")
  case (Inl e)
  with assms have "(w', r) = (w, Inl e)" by (simp add: savefig_def)
  then show ?thesis by blast
next
  case (Inr u)
  show ?thesis
  proof (cases "open_for_writing (fsys w) (clock w) file_path")
    case (Inl e)
    with Inr assms have "(w', r) = (w, Inl e)" by (simp add: savefig_def)
    then show ?thesis by blast
  next
    case fs: (Inr fs)
    with Inr assms
    have "(w', r) = (w\<lparr>fsys := fs, saved := saved w @ [(file_path, fig w)]\<rparr>, Inr ())"
      by (simp add: savefig_def)
    with Inr fs show ?thesis by auto
  qed
qed

lemma save_bar_chart_cases:
  assumes "save_bar_chart render expl arch w = (w', r)"
  shows "(\<exists>e. r = Inl e \<and> w' = w)
     \<or> (\<exists>fs. r = Inr () \<and> render (fig w) = Inr ()
           \<and> open_for_writing (fsys w) (clock w)
                (unique_filename (fsys w) (save_path_of expl arch) ''.png'') = Inr fs
           \<and> w' = print (ChartSaved (unique_filename (fsys w) (save_path_of expl arch) ''.png''))
                    (w\<lparr>fsys := fs,
                       saved := saved w
                         @ [(unique_filename (fsys w) (save_path_of expl arch) ''.png'', fig w)]\<rparr>))"
proof -
  let ?p = "unique_filename (fsys w) (save_path_of expl arch) ''.png''"
  obtain w1 r1 where sf: "savefig render ?p w = (w1, r1)"
    by (cases "savefig render ?p w")
  from savefig_cases [OF sf] assms sf show ?thesis
    by (auto simp: save_bar_chart_def Let_def)
qed

text \<open>
  C2. For every world, the name \<open>save_bar_chart\<close> (lines 52 to 64) chooses is the
  first of \<open>save_path.png\<close>, \<open>save_path_1.png\<close>, \<open>save_path_2.png\<close>, ... that does not
  exist: every earlier name of that sequence exists, the chosen one does not. The
  probe is a total function: it returns for every filesystem and has no error
  result. When \<open>savefig\<close> then returns, the figure is saved under that name in a new
  file; when it raises, the world is as it was. Whatever the outcome, every path that
  existed before still has the node it had, except that the directory the new file
  lies in (still a directory) has a new listing.
\<close>

theorem save_bar_chart_never_overwrites:
  "\<exists>n. unique_filename (fsys w) (save_path_of expl arch) ''.png''
          = candidate (save_path_of expl arch) ''.png'' n
     \<and> \<not> os_path_exists (fsys w) (candidate (save_path_of expl arch) ''.png'' n)
     \<and> (\<forall>k<n. os_path_exists (fsys w) (candidate (save_path_of expl arch) ''.png'' k))
     \<and> (\<forall>w'. save_bar_chart render expl arch w = (w', Inr ())
            \<longrightarrow> saved w' = saved w @ [(candidate (save_path_of expl arch) ''.png'' n, fig w)]
              \<and> map_of (fsys w') (candidate (save_path_of expl arch) ''.png'' n)
                  = Some (File (clock w)))
     \<and> (\<forall>w' e. save_bar_chart render expl arch w = (w', Inl e) \<longrightarrow> w' = w)
     \<and> (\<forall>w' r q. save_bar_chart render expl arch w = (w', r) \<and> os_path_exists (fsys w) q
            \<longrightarrow> map_of (fsys w') q = map_of (fsys w) q
              \<or> (q = os_path_dirname (candidate (save_path_of expl arch) ''.png'' n)
                  \<and> os_path_isdir (fsys w) q \<and> os_path_isdir (fsys w') q))"
proof -
  let ?p = "unique_filename (fsys w) (save_path_of expl arch) ''.png''"
  obtain n where n: "?p = candidate (save_path_of expl arch) ''.png'' n"
    "\<forall>k<n. os_path_exists (fsys w) (candidate (save_path_of expl arch) ''.png'' k)"
    using unique_filename_candidate by blast
  have free: "\<not> os_path_exists (fsys w) ?p"
    unfolding unique_filename_def by (rule unique_filename_loop_free)
  have ok: "saved w' = saved w @ [(?p, fig w)] \<and> map_of (fsys w') ?p = Some (File (clock w))"
    if "save_bar_chart render expl arch w = (w', Inr ())" for w'
  proof -
    from save_bar_chart_cases [OF that] obtain fs where
      fs: "open_for_writing (fsys w) (clock w) ?p = Inr fs"
      and w': "w' = print (ChartSaved ?p) (w\<lparr>fsys := fs, saved := saved w @ [(?p, fig w)]\<rparr>)"
      by auto
    from open_for_writing_new(1) [OF free fs] w' show ?thesis
      by (simp add: print_def)
  qed
  have failed: "w' = w" if "save_bar_chart render expl arch w = (w', Inl e)" for w' e
    using save_bar_chart_cases [OF that] by auto
  have kept: "map_of (fsys w') q = map_of (fsys w) q
        \<or> (q = os_path_dirname ?p \<and> os_path_isdir (fsys w) q \<and> os_path_isdir (fsys w') q)"
    if "save_bar_chart render expl arch w = (w', r)" "os_path_exists (fsys w) q" for w' r q
  proof -
    from save_bar_chart_cases [OF that(1)]
    consider "w' = w"
      | fs where "open_for_writing (fsys w) (clock w) ?p = Inr fs" "fsys w' = fs"
      by (auto simp: print_def)
    then show ?thesis
    proof cases
      case 1
      then show ?thesis by simp
    next
      case 2
      with open_for_writing_new(2) [OF free 2(1) that(2)] show ?thesis by simp
    qed
  qed
  note facts = free ok failed kept
  show ?thesis
  proof (intro exI [of _ n] conjI allI impI)
    show "unique_filename (fsys w) (save_path_of expl arch) ''.png''
            = candidate (save_path_of expl arch) ''.png'' n"
      by (rule n(1))
    from free show "\<not> os_path_exists (fsys w) (candidate (save_path_of expl arch) ''.png'' n)"
      by (simp add: n(1))
    fix k assume "k < n"
    with n(2) show "os_path_exists (fsys w) (candidate (save_path_of expl arch) ''.png'' k)"
      by blast
  next
    fix w' assume "save_bar_chart render expl arch w = (w', Inr ())"
    from ok [OF this]
    show "saved w' = saved w @ [(candidate (save_path_of expl arch) ''.png'' n, fig w)]"
      and "map_of (fsys w') (candidate (save_path_of expl arch) ''.png'' n)
             = Some (File (clock w))"
      by (simp_all add: n(1))
  next
    fix w' e assume "save_bar_chart render expl arch w = (w', Inl e)"
    then show "w' = w" by (rule failed)
  next
    fix w' r q
    assume "save_bar_chart render expl arch w = (w', r) \<and> os_path_exists (fsys w) q"
    then have "map_of (fsys w') q = map_of (fsys w) q
        \<or> (q = os_path_dirname ?p \<and> os_path_isdir (fsys w) q \<and> os_path_isdir (fsys w') q)"
      using kept by blast
    then show "map_of (fsys w') q = map_of (fsys w) q
        \<or> (q = os_path_dirname (candidate (save_path_of expl arch) ''.png'' n)
            \<and> os_path_isdir (fsys w) q \<and> os_path_isdir (fsys w') q)"
      by (simp add: n(1))
  qed
qed

theorem save_bar_chart_never_overwrites_witness:
  "os_path_exists example_fs ''results/figs/SHAP_topk_Bert.png''
   \<and> os_path_exists example_fs ''results/figs/SHAP_topk_Bert_1.png''
   \<and> unique_filename example_fs (save_path_of ''SHAP'' (Some ''Bert'')) ''.png''
       = ''results/figs/SHAP_topk_Bert_2.png''
   \<and> \<not> os_path_exists example_fs ''results/figs/SHAP_topk_Bert_2.png''
   \<and> snd (save_bar_chart example_render ''SHAP'' (Some ''Bert'') (fresh_world example_fs))
       = Inr ()
   \<and> saved (fst (save_bar_chart example_render ''SHAP'' (Some ''Bert'')
         (fresh_world example_fs)))
       = [(''results/figs/SHAP_topk_Bert_2.png'', empty_figure)]
   \<and> map_of (fsys (fst (save_bar_chart example_render ''SHAP'' (Some ''Bert'')
         (fresh_world example_fs))))
         ''results/figs/SHAP_topk_Bert_1.png''
       = Some (File 5)"
proof -
  let ?c = "candidate (save_path_of ''SHAP'' (Some ''Bert'')) ''.png''"
  let ?run = "save_bar_chart example_render ''SHAP'' (Some ''Bert'') (fresh_world example_fs)"
  have c0: "?c 0 = ''results/figs/SHAP_topk_Bert.png''"
    by (simp add: save_path_of_def)
  have c1: "?c 1 = ''results/figs/SHAP_topk_Bert_1.png''"
    by (simp add: save_path_of_def suffixed_def str_nat.simps digit_def)
  have c2: "?c 2 = ''results/figs/SHAP_topk_Bert_2.png''"
    by (simp add: save_path_of_def suffixed_def str_nat.simps digit_def numeral_2_eq_2)
  have e0: "os_path_exists example_fs ''results/figs/SHAP_topk_Bert.png''"
    and e1: "os_path_exists example_fs ''results/figs/SHAP_topk_Bert_1.png''"
    and e2: "\<not> os_path_exists example_fs ''results/figs/SHAP_topk_Bert_2.png''"
    by (simp_all add: os_path_exists_def example_fs_def)
  have fs: "fsys (fresh_world example_fs) = example_fs"
    and fg: "fig (fresh_world example_fs) = empty_figure"
    and sv: "saved (fresh_world example_fs) = []"
    by (simp_all add: fresh_world_def)
  have dir: "os_path_dirname ''results/figs/SHAP_topk_Bert_2.png'' = ''results/figs''"
    by (simp add: os_path_dirname_def)
  from save_bar_chart_never_overwrites
    [of "fresh_world example_fs" "''SHAP''" "Some ''Bert''" example_render]
  obtain n where n: "unique_filename example_fs (save_path_of ''SHAP'' (Some ''Bert'')) ''.png'' = ?c n"
    "\<not> os_path_exists example_fs (?c n)"
    "\<forall>k<n. os_path_exists example_fs (?c k)"
    "\<forall>w'. ?run = (w', Inr ()) \<longrightarrow> saved w' = [(?c n, empty_figure)]"
    "\<forall>w' r q. ?run = (w', r) \<and> os_path_exists example_fs q
       \<longrightarrow> map_of (fsys w') q = map_of example_fs q
         \<or> (q = os_path_dirname (?c n) \<and> os_path_isdir example_fs q \<and> os_path_isdir (fsys w') q)"
    unfolding fs fg sv by auto
  have "n \<noteq> 0" using n(2) e0 c0 by metis
  moreover have "n \<noteq> 1" using n(2) e1 c1 by metis
  moreover have "\<not> 2 < n" using n(3) e2 c2 by metis
  ultimately have n2: "n = 2" by arith
  with n(1) c2 have name: "unique_filename example_fs (save_path_of ''SHAP'' (Some ''Bert'')) ''.png''
      = ''results/figs/SHAP_topk_Bert_2.png''" by simp
  have render: "example_render (fig (fresh_world example_fs)) = Inr ()"
    by (simp add: example_render_def)
  have "open_for_writing example_fs 10 ''results/figs/SHAP_topk_Bert_2.png''
          \<noteq> Inl (FileNotFoundError ''results/figs/SHAP_topk_Bert_2.png'')
        \<and> (\<exists>fs'. open_for_writing example_fs 10 ''results/figs/SHAP_topk_Bert_2.png'' = Inr fs')"
    by (simp add: open_for_writing_def dir example_fs_def)
  then obtain fs' where "open_for_writing example_fs 10 ''results/figs/SHAP_topk_Bert_2.png'' = Inr fs'"
    by blast
  with name render have ok: "snd ?run = Inr ()"
    by (simp add: save_bar_chart_def savefig_def fresh_world_def Let_def)
  then have run: "?run = (fst ?run, Inr ())"
    by (metis prod.collapse)
  from n(4) run n2 c2 have log: "saved (fst ?run) = [(''results/figs/SHAP_topk_Bert_2.png'', empty_figure)]"
    by metis
  have "''results/figs/SHAP_topk_Bert_1.png'' \<noteq> os_path_dirname (?c n)"
    by (simp only: n2 c2 dir) simp
  with n(5) run e1
  have "map_of (fsys (fst ?run)) ''results/figs/SHAP_topk_Bert_1.png''
          = map_of example_fs ''results/figs/SHAP_topk_Bert_1.png''"
    by blast
  also have "\<dots> = Some (File 5)"
    by (simp add: example_fs_def)
  finally show ?thesis using e0 e1 e2 name ok log by simp
qed

section \<open>Discovery: which checkpoint is loaded\<close>

lemma getmtime_keys_Inr:
  "getmtime_keys fs ps = Inr kps \<Longrightarrow>
   map snd kps = ps \<and> (\<forall>(t, p) \<in> set kps. os_path_getmtime fs p = Inr t)"
  by (induction ps arbitrary: kps) (auto split: sum.splits)

lemma sorted_key_last:
  "sorted (map f xs) \<Longrightarrow> x \<in> set xs \<Longrightarrow> f x \<le> f (last xs)"
proof (induction xs)
  case Nil
  then show ?case by simp
next
  case (Cons a xs)
  then show ?case by (cases xs) auto
qed

lemma sorted_reverse_Nil: "sorted_reverse kxs = [] \<longleftrightarrow> kxs = []"
proof -
  have "length (sorted_reverse kxs) = length kxs"
    by (simp add: sorted_reverse_def)
  then show ?thesis
    by (metis length_0_conv)
qed

lemma sorted_reverse_head:
  assumes "sorted_reverse kxs = x # rest"
  shows "\<exists>k. (k, x) \<in> set kxs \<and> (\<forall>(k', y) \<in> set kxs. k' \<le> k)"
proof -
  let ?l = "sort_key fst (rev kxs)"
  from assms have ne: "?l \<noteq> []"
    by (auto simp: sorted_reverse_def)
  from assms have "x = snd (hd (rev ?l))"
    by (simp add: sorted_reverse_def hd_map [symmetric] ne)
  then have x: "x = snd (last ?l)"
    by (simp add: hd_rev)
  have mem: "last ?l \<in> set kxs"
    using last_in_set [OF ne] by simp
  have top: "fst ky \<le> fst (last ?l)" if "ky \<in> set kxs" for ky
    using sorted_key_last [of fst ?l ky] that by simp
  show ?thesis
  proof (intro exI [of _ "fst (last ?l)"] conjI)
    from mem x show "(fst (last ?l), x) \<in> set kxs" by simp
    from top show "\<forall>(k', y) \<in> set kxs. k' \<le> fst (last ?l)" by fastforce
  qed
qed

lemma sorted_by_getmtime_Nil: "sorted_by_getmtime fs ps = Inr [] \<Longrightarrow> ps = []"
  by (auto simp: sorted_by_getmtime_def sorted_reverse_Nil split: sum.splits
           dest: getmtime_keys_Inr)

lemma sorted_by_getmtime_head:
  assumes "sorted_by_getmtime fs ps = Inr (p # rest)"
  shows "p \<in> set ps \<and> (\<forall>q \<in> set ps. not_later fs q p)"
proof -
  from assms obtain kps where kps: "getmtime_keys fs ps = Inr kps"
    and srt: "sorted_reverse kps = p # rest"
    by (auto simp: sorted_by_getmtime_def split: sum.splits)
  from getmtime_keys_Inr [OF kps] have ps: "map snd kps = ps"
    and times: "\<forall>(t, q) \<in> set kps. os_path_getmtime fs q = Inr t"
    by simp_all
  from sorted_reverse_head [OF srt] obtain t where t: "(t, p) \<in> set kps"
    and top: "\<forall>(t', q) \<in> set kps. t' \<le> t"
    by blast
  from t ps have "p \<in> set ps" by force
  moreover have "not_later fs q p" if "q \<in> set ps" for q
  proof -
    from that ps obtain t' where t': "(t', q) \<in> set kps" by force
    from times t' have "os_path_getmtime fs q = Inr t'" by blast
    moreover from times t have "os_path_getmtime fs p = Inr t" by blast
    moreover from top t' have "t' \<le> t" by blast
    ultimately show ?thesis
      by (simp add: not_later_def)
  qed
  ultimately show ?thesis by blast
qed

lemma isdir_listdir: "os_path_isdir fs p \<Longrightarrow> \<exists>names. os_listdir fs p = Inr names"
  by (auto simp: os_path_isdir_def os_listdir_def split: option.splits node.splits)

lemma load_dir_skip:
  "\<not> has_entries (fsys w) (os_path_join path model_dir) \<Longrightarrow>
   load_dir from_pretrained class_name path model_dir st w = (w, Inr st)"
proof (cases "os_path_isdir (fsys w) (os_path_join path model_dir)")
  case False
  then show ?thesis
    by (simp add: load_dir_def)
next
  case True
  moreover assume "\<not> has_entries (fsys w) (os_path_join path model_dir)"
  ultimately have "os_listdir (fsys w) (os_path_join path model_dir) = Inr []"
    using isdir_listdir [OF True] by (auto simp: has_entries_def)
  with True show ?thesis
    by (simp add: load_dir_def sorted_by_getmtime_def sorted_reverse_def)
qed

lemma load_dir_entries:
  assumes "has_entries (fsys w) (os_path_join path model_dir)"
    and "load_dir from_pretrained class_name path model_dir st w = (w1, r)"
  shows "(w1 = w \<and> (\<exists>e. r = Inl e))
     \<or> (\<exists>p. newest_entry (fsys w) (os_path_join path model_dir) p
           \<and> ((\<exists>e. from_pretrained p = Inl e \<and> r = Inl e
                   \<and> w1 = w\<lparr>loads := loads w @ [p]\<rparr>)
              \<or> (\<exists>m. from_pretrained p = Inr m
                   \<and> r = Inr (AList.update model_dir m (fst st),
                              if falsy (snd st) then Some (class_name m) else snd st)
                   \<and> w1 = print (Loaded (os_path_join path model_dir) p)
                            (w\<lparr>loads := loads w @ [p]\<rparr>))))"
proof -
  let ?mp = "os_path_join path model_dir"
  from assms(1) obtain names where names: "os_listdir (fsys w) ?mp = Inr names" "names \<noteq> []"
    and isdir: "os_path_isdir (fsys w) ?mp"
    by (auto simp: has_entries_def split: sum.splits)
  show ?thesis
  proof (cases "sorted_by_getmtime (fsys w) (map (os_path_join ?mp) names)")
    case (Inl e)
    with assms(2) names isdir have "(w1, r) = (w, Inl e)"
      by (simp add: load_dir_def)
    then show ?thesis by blast
  next
    case (Inr checkpoints)
    with names(2) obtain p rest where cps: "checkpoints = p # rest"
      by (cases checkpoints) (auto dest: sorted_by_getmtime_Nil)
    from sorted_by_getmtime_head [OF Inr [unfolded cps]] names(1)
    have newest: "newest_entry (fsys w) ?mp p"
      by (simp add: newest_entry_def list_all_iff)
    show ?thesis
    proof (cases "from_pretrained p")
      case (Inl e)
      with assms(2) names isdir Inr cps
      have "(w1, r) = (w\<lparr>loads := loads w @ [p]\<rparr>, Inl e)"
        by (simp add: load_dir_def Let_def)
      with newest Inl show ?thesis by blast
    next
      case m: (Inr m)
      with assms(2) names isdir Inr cps
      have "(w1, r) = (print (Loaded ?mp p) (w\<lparr>loads := loads w @ [p]\<rparr>),
                       Inr (AList.update model_dir m (fst st),
                            if falsy (snd st) then Some (class_name m) else snd st))"
        by (simp add: load_dir_def Let_def)
      with newest m show ?thesis by blast
    qed
  qed
qed

lemma load_dir_fsys:
  "load_dir from_pretrained class_name path model_dir st w = (w1, r) \<Longrightarrow> fsys w1 = fsys w"
  by (cases "has_entries (fsys w) (os_path_join path model_dir)")
     (auto simp: load_dir_skip print_def dest!: load_dir_entries)

lemma load_dir_loads:
  "load_dir from_pretrained class_name path model_dir st w = (w1, r) \<Longrightarrow>
   \<exists>ps. loads w1 = loads w @ ps
      \<and> (\<forall>p \<in> set ps. newest_entry (fsys w) (os_path_join path model_dir) p)"
  by (cases "has_entries (fsys w) (os_path_join path model_dir)")
     (auto simp: load_dir_skip print_def dest!: load_dir_entries)

lemma load_loop_fsys:
  "load_loop from_pretrained class_name path ds st w = (w', r) \<Longrightarrow> fsys w' = fsys w"
proof (induction ds arbitrary: st w)
  case Nil
  then show ?case by simp
next
  case (Cons d ds)
  obtain w1 r1 where step: "load_dir from_pretrained class_name path d st w = (w1, r1)"
    by (cases "load_dir from_pretrained class_name path d st w")
  from load_dir_fsys [OF step] have "fsys w1 = fsys w" .
  with Cons step show ?case
    by (cases r1) auto
qed

lemma load_loop_loads:
  "load_loop from_pretrained class_name path ds st w = (w', r) \<Longrightarrow>
   \<exists>ps. loads w' = loads w @ ps
      \<and> (\<forall>p \<in> set ps. \<exists>d \<in> set ds. newest_entry (fsys w) (os_path_join path d) p)"
proof (induction ds arbitrary: st w)
  case Nil
  then show ?case by simp
next
  case (Cons d ds)
  obtain w1 r1 where step: "load_dir from_pretrained class_name path d st w = (w1, r1)"
    by (cases "load_dir from_pretrained class_name path d st w")
  from load_dir_loads [OF step] obtain ps1 where ps1: "loads w1 = loads w @ ps1"
    "\<forall>p \<in> set ps1. newest_entry (fsys w) (os_path_join path d) p"
    by blast
  show ?case
  proof (cases r1)
    case (Inl e)
    with Cons.prems step have "w' = w1" by simp
    with ps1 show ?thesis by auto
  next
    case (Inr st1)
    with Cons.prems step
    have rest: "load_loop from_pretrained class_name path ds st1 w1 = (w', r)" by simp
    from Cons.IH [OF rest] load_dir_fsys [OF step]
    obtain ps2 where ps2: "loads w' = loads w1 @ ps2"
      "\<forall>p \<in> set ps2. \<exists>d \<in> set ds. newest_entry (fsys w) (os_path_join path d) p"
      by auto
    from ps1 ps2 show ?thesis
      by (intro exI [of _ "ps1 @ ps2"]) auto
  qed
qed

lemma load_dir_other_key:
  assumes "load_dir from_pretrained class_name path d0 st w = (w1, Inr st1)"
    and "d \<noteq> d0 \<or> \<not> has_entries (fsys w) (os_path_join path d)"
  shows "map_of (fst st1) d = map_of (fst st) d"
proof (cases "has_entries (fsys w) (os_path_join path d0)")
  case False
  with assms(1) show ?thesis by (simp add: load_dir_skip)
next
  case True
  with assms(2) have "d \<noteq> d0" by auto
  with load_dir_entries [OF True assms(1)] show ?thesis
    by (auto simp: update_conv')
qed

lemma load_loop_other_key:
  assumes "load_loop from_pretrained class_name path ds st w = (w', Inr st')"
    and "d \<notin> set ds \<or> \<not> has_entries (fsys w) (os_path_join path d)"
  shows "map_of (fst st') d = map_of (fst st) d"
  using assms
proof (induction ds arbitrary: st w)
  case Nil
  then show ?case by simp
next
  case (Cons d0 ds)
  obtain w1 r1 where step: "load_dir from_pretrained class_name path d0 st w = (w1, r1)"
    by (cases "load_dir from_pretrained class_name path d0 st w")
  with Cons.prems(1) obtain st1 where r1: "r1 = Inr st1"
    and rest: "load_loop from_pretrained class_name path ds st1 w1 = (w', Inr st')"
    by (cases r1) auto
  from Cons.prems(2) have "d \<noteq> d0 \<or> \<not> has_entries (fsys w) (os_path_join path d)"
    by auto
  from load_dir_other_key [OF step [unfolded r1] this]
  have "map_of (fst st1) d = map_of (fst st) d" .
  moreover from Cons.prems(2) load_dir_fsys [OF step]
  have "d \<notin> set ds \<or> \<not> has_entries (fsys w1) (os_path_join path d)" by auto
  from Cons.IH [OF rest this] have "map_of (fst st') d = map_of (fst st1) d" .
  ultimately show ?case by simp
qed

lemma load_loop_models:
  assumes "load_loop from_pretrained class_name path ds st w = (w', Inr st')"
    and "d \<in> set ds" and "has_entries (fsys w) (os_path_join path d)"
  shows "\<exists>p m ps. loads w' = loads w @ ps \<and> p \<in> set ps
           \<and> newest_entry (fsys w) (os_path_join path d) p \<and> from_pretrained p = Inr m
           \<and> map_of (fst st') d = Some m"
  using assms
proof (induction ds arbitrary: st w)
  case Nil
  then show ?case by simp
next
  case (Cons d0 ds)
  obtain w1 r1 where step: "load_dir from_pretrained class_name path d0 st w = (w1, r1)"
    by (cases "load_dir from_pretrained class_name path d0 st w")
  with Cons.prems(1) obtain st1 where r1: "r1 = Inr st1"
    and rest: "load_loop from_pretrained class_name path ds st1 w1 = (w', Inr st')"
    by (cases r1) auto
  have fs1: "fsys w1 = fsys w" by (rule load_dir_fsys [OF step])
  from load_dir_loads [OF step] obtain ps1 where ps1: "loads w1 = loads w @ ps1"
    by blast
  show ?case
  proof (cases "d \<in> set ds")
    case True
    from Cons.IH [OF rest True] Cons.prems(3) fs1
    obtain p m ps2 where "loads w' = loads w1 @ ps2" "p \<in> set ps2"
      "newest_entry (fsys w) (os_path_join path d) p" "from_pretrained p = Inr m"
      "map_of (fst st') d = Some m"
      by auto
    with ps1 show ?thesis
      by (intro exI [of _ p] exI [of _ m] exI [of _ "ps1 @ ps2"]) simp
  next
    case False
    with Cons.prems(2) have d0: "d0 = d" by simp
    from load_dir_entries [OF Cons.prems(3) [folded d0] step [unfolded r1]]
    obtain p m where p: "newest_entry (fsys w) (os_path_join path d) p"
      "from_pretrained p = Inr m" "fst st1 = AList.update d m (fst st)"
      "loads w1 = loads w @ [p]"
      unfolding d0 by (auto simp: print_def)
    from load_loop_other_key [OF rest, of d] False
    have "map_of (fst st') d = map_of (fst st1) d" by simp
    with p(3) have found: "map_of (fst st') d = Some m"
      by (simp add: update_conv')
    from load_loop_loads [OF rest] obtain ps2 where "loads w' = loads w1 @ ps2" by blast
    with p(4) have "loads w' = loads w @ (p # ps2)" by simp
    with found p(1,2) show ?thesis
      by (intro exI [of _ p] exI [of _ m] exI [of _ "p # ps2"]) simp
  qed
qed

text \<open>
  C1. Every path \<open>load_latest_checkpoints\<close> calls the loader on is an entry of a
  subdirectory \<open>model_dir\<close> of \<open>path\<close>, and no entry of that subdirectory has a
  later modification time (this holds for the calls of a run that ends in an error,
  too). When the function returns, every subdirectory listed in \<open>path\<close> that has at
  least one entry has, under its name, the model the loader gave for such a newest
  entry.
\<close>

theorem load_latest_checkpoints_newest:
  assumes "load_latest_checkpoints from_pretrained class_name path w = (w', r)"
  shows "\<exists>ps. loads w' = loads w @ ps
     \<and> (\<forall>p \<in> set ps. \<exists>names model_dir. os_listdir (fsys w) path = Inr names
            \<and> model_dir \<in> set names
            \<and> newest_entry (fsys w) (os_path_join path model_dir) p)
     \<and> (\<forall>names model_dir models arch.
            os_listdir (fsys w) path = Inr names \<and> model_dir \<in> set names
            \<and> has_entries (fsys w) (os_path_join path model_dir)
            \<and> r = Inr (models, arch)
            \<longrightarrow> (\<exists>p m. p \<in> set ps
                   \<and> newest_entry (fsys w) (os_path_join path model_dir) p
                   \<and> from_pretrained p = Inr m \<and> map_of models model_dir = Some m))"
proof (cases "os_path_isdir (fsys w) path")
  case False
  with assms have "w' = w" "\<exists>e. r = Inl e"
    by (auto simp: load_latest_checkpoints_def)
  then show ?thesis by (intro exI [of _ "[]"]) auto
next
  case True
  then obtain names where names: "os_listdir (fsys w) path = Inr names"
    using isdir_listdir by blast
  with True assms
  have loop: "load_loop from_pretrained class_name path names ([], None) w = (w', r)"
    by (simp add: load_latest_checkpoints_def)
  from load_loop_loads [OF loop] obtain ps where ps: "loads w' = loads w @ ps"
    "\<forall>p \<in> set ps. \<exists>d \<in> set names. newest_entry (fsys w) (os_path_join path d) p"
    by blast
  have "\<exists>p m. p \<in> set ps \<and> newest_entry (fsys w) (os_path_join path d) p
          \<and> from_pretrained p = Inr m \<and> map_of models d = Some m"
    if "d \<in> set names" "has_entries (fsys w) (os_path_join path d)" "r = Inr (models, arch)"
    for d models arch
  proof -
    from load_loop_models [OF loop [unfolded that(3)] that(1,2)]
    obtain p m ps' where pm: "loads w' = loads w @ ps'" "p \<in> set ps'"
      "newest_entry (fsys w) (os_path_join path d) p"
      "from_pretrained p = Inr m" "map_of models d = Some m"
      by auto
    from pm(1) ps(1) have "ps' = ps" by simp
    with pm show ?thesis by blast
  qed
  with ps names show ?thesis
    by (intro exI [of _ ps]) auto
qed

lemma example_discovery:
  "load_latest_checkpoints example_loader example_class_name ''./ckpts''
     (fresh_world example_fs)
   = ((fresh_world example_fs)
        \<lparr>stdout := [Loaded ''./ckpts/base'' ''./ckpts/base/ckpt_new'',
                    Loaded ''./ckpts/pruned'' ''./ckpts/pruned/ckpt''],
         loads := [''./ckpts/base/ckpt_new'', ''./ckpts/pruned/ckpt'']\<rparr>,
      Inr ([(''base'', ''./ckpts/base/ckpt_new''), (''pruned'', ''./ckpts/pruned/ckpt'')],
           Some ''Bert''))"
  by (simp add: load_latest_checkpoints_def load_dir_def fresh_world_def example_fs_def
        os_path_isdir_def os_listdir_def os_path_join_def sorted_by_getmtime_def
        sorted_reverse_def os_path_getmtime_def example_loader_def example_class_name_def
        print_def Let_def)

theorem load_latest_checkpoints_newest_witness:
  "has_entries example_fs ''./ckpts/base''
   \<and> newest_entry example_fs ''./ckpts/base'' ''./ckpts/base/ckpt_new''
   \<and> \<not> newest_entry example_fs ''./ckpts/base'' ''./ckpts/base/ckpt_old''
   \<and> snd (load_latest_checkpoints example_loader example_class_name ''./ckpts''
            (fresh_world example_fs))
       = Inr ([(''base'', ''./ckpts/base/ckpt_new''), (''pruned'', ''./ckpts/pruned/ckpt'')],
              Some ''Bert'')"
proof -
  let ?w = "fresh_world example_fs"
  let ?models = "[(''base'', ''./ckpts/base/ckpt_new''), (''pruned'', ''./ckpts/pruned/ckpt'')]"
  have fs: "fsys ?w = example_fs"
    by (simp add: fresh_world_def)
  have ls: "os_listdir example_fs ''./ckpts'' = Inr [''base'', ''empty'', ''notes.txt'', ''pruned'']"
    by (simp add: os_listdir_def example_fs_def)
  have join: "os_path_join ''./ckpts'' ''base'' = ''./ckpts/base''"
    by (simp add: os_path_join_def)
  have he: "has_entries example_fs ''./ckpts/base''"
    by (simp add: has_entries_def os_path_isdir_def os_listdir_def example_fs_def)
  have old: "\<not> newest_entry example_fs ''./ckpts/base'' ''./ckpts/base/ckpt_old''"
    by (simp add: newest_entry_def not_later_def os_listdir_def os_path_getmtime_def
          os_path_join_def example_fs_def)
  from load_latest_checkpoints_newest [OF example_discovery]
  obtain ps where
    "\<forall>names model_dir models arch.
        os_listdir (fsys ?w) ''./ckpts'' = Inr names \<and> model_dir \<in> set names
        \<and> has_entries (fsys ?w) (os_path_join ''./ckpts'' model_dir)
        \<and> Inr (?models, Some ''Bert'') = Inr (models, arch)
        \<longrightarrow> (\<exists>p m. p \<in> set ps
               \<and> newest_entry (fsys ?w) (os_path_join ''./ckpts'' model_dir) p
               \<and> example_loader p = Inr m \<and> map_of models model_dir = Some m)"
    by blast
  from this [rule_format, of "[''base'', ''empty'', ''notes.txt'', ''pruned'']" "''base''"
               ?models "Some ''Bert''"] ls he
  obtain p m where "newest_entry example_fs ''./ckpts/base'' p"
    "example_loader p = Inr m" "map_of ?models ''base'' = Some m"
    unfolding fs join by auto
  then have "newest_entry example_fs ''./ckpts/base'' ''./ckpts/base/ckpt_new''"
    by (simp add: example_loader_def)
  with he old show ?thesis
    by (simp add: example_discovery)
qed

section \<open>Discovery: a subdirectory without entries\<close>

lemma load_loop_append:
  "load_loop from_pretrained class_name path (xs @ ys) st w =
     (case load_loop from_pretrained class_name path xs st w of
        (w1, Inl e) \<Rightarrow> (w1, Inl e)
      | (w1, Inr st1) \<Rightarrow> load_loop from_pretrained class_name path ys st1 w1)"
proof (induction xs arbitrary: st w)
  case Nil
  then show ?case by simp
next
  case (Cons x xs)
  then show ?case
    by (cases "load_dir from_pretrained class_name path x st w")
       (auto split: sum.splits)
qed

text \<open>
  C7. For a subdirectory \<open>model_dir\<close> of \<open>path\<close> that has no entries, the loop body
  returns normally and leaves the world, \<open>models\<close> and \<open>arch\<close> as they were; the loop
  over a listing that contains \<open>model_dir\<close> gives the result of the loop over the
  listing without it (so this subdirectory never makes discovery fail); and whenever
  \<open>load_latest_checkpoints\<close> returns, \<open>model_dir\<close> is not a key of the collection.
\<close>

theorem load_latest_checkpoints_skips_empty:
  assumes "os_path_isdir (fsys w) (os_path_join path model_dir)"
    and "os_listdir (fsys w) (os_path_join path model_dir) = Inr []"
  shows "load_dir from_pretrained class_name path model_dir st w = (w, Inr st)
     \<and> load_loop from_pretrained class_name path (before @ model_dir # after) st w
         = load_loop from_pretrained class_name path (before @ after) st w
     \<and> (\<forall>w' models arch.
           load_latest_checkpoints from_pretrained class_name path w = (w', Inr (models, arch))
           \<longrightarrow> map_of models model_dir = None)"
proof (intro conjI allI impI)
  from assms(2) have none: "\<not> has_entries (fsys w) (os_path_join path model_dir)"
    by (simp add: has_entries_def)
  then show "load_dir from_pretrained class_name path model_dir st w = (w, Inr st)"
    by (rule load_dir_skip)
  show "load_loop from_pretrained class_name path (before @ model_dir # after) st w
          = load_loop from_pretrained class_name path (before @ after) st w"
  proof (cases "load_loop from_pretrained class_name path before st w")
    case (Pair w1 r1)
    show ?thesis
    proof (cases r1)
      case (Inl e)
      with Pair show ?thesis by (simp add: load_loop_append)
    next
      case (Inr st1)
      from load_loop_fsys [OF Pair] none
      have "\<not> has_entries (fsys w1) (os_path_join path model_dir)" by simp
      then have "load_dir from_pretrained class_name path model_dir st1 w1 = (w1, Inr st1)"
        by (rule load_dir_skip)
      with Pair Inr show ?thesis by (simp add: load_loop_append)
    qed
  qed
  fix w' models arch
  assume run: "load_latest_checkpoints from_pretrained class_name path w
                 = (w', Inr (models, arch))"
  then obtain names where
    "load_loop from_pretrained class_name path names ([], None) w = (w', Inr (models, arch))"
    by (auto simp: load_latest_checkpoints_def split: if_splits sum.splits)
  from load_loop_other_key [OF this, of model_dir] none
  show "map_of models model_dir = None" by simp
qed

theorem load_latest_checkpoints_skips_empty_witness:
  "os_path_isdir example_fs ''./ckpts/empty''
   \<and> os_listdir example_fs ''./ckpts/empty'' = Inr []
   \<and> load_dir example_loader example_class_name ''./ckpts'' ''empty'' ([], None)
         (fresh_world example_fs)
       = (fresh_world example_fs, Inr ([], None))
   \<and> (\<exists>w' models arch.
         load_latest_checkpoints example_loader example_class_name ''./ckpts''
           (fresh_world example_fs) = (w', Inr (models, arch))
         \<and> map_of models ''empty'' = None)"
proof -
  let ?w = "fresh_world example_fs"
  have fs: "fsys ?w = example_fs"
    by (simp add: fresh_world_def)
  have join: "os_path_join ''./ckpts'' ''empty'' = ''./ckpts/empty''"
    by (simp add: os_path_join_def)
  have isdir: "os_path_isdir example_fs ''./ckpts/empty''"
    by (simp add: os_path_isdir_def example_fs_def)
  have ls: "os_listdir example_fs ''./ckpts/empty'' = Inr []"
    by (simp add: os_listdir_def example_fs_def)
  note skip = load_latest_checkpoints_skips_empty
    [of ?w "''./ckpts''" "''empty''" example_loader example_class_name "([], None)" "[]" "[]",
      unfolded fs join, OF isdir ls]
  from skip have step: "load_dir example_loader example_class_name ''./ckpts'' ''empty''
      ([], None) ?w = (?w, Inr ([], None))"
    by blast
  from skip example_discovery
  have "map_of [(''base'', ''./ckpts/base/ckpt_new''), (''pruned'', ''./ckpts/pruned/ckpt'')]
          ''empty'' = None"
    by blast
  with isdir ls step example_discovery show ?thesis
    by blast
qed

section \<open>Discovery: the architecture label\<close>

lemma load_loop_first_load:
  assumes named: "\<And>p m. from_pretrained p = Inr m \<Longrightarrow> class_name m \<noteq> []"
    and run: "load_loop from_pretrained class_name path ds (models, arch) w
                = (w', Inr (models', arch'))"
  shows "\<exists>ps. loads w' = loads w @ ps
     \<and> (ps = [] \<longrightarrow> models' = models \<and> arch' = arch)
     \<and> (ps \<noteq> [] \<longrightarrow> models' \<noteq> []
           \<and> (\<exists>m. from_pretrained (hd ps) = Inr m
                 \<and> arch' = (if falsy arch then Some (class_name m) else arch)))"
  using run
proof (induction ds arbitrary: models arch w)
  case Nil
  then show ?case by simp
next
  case (Cons d ds)
  obtain w1 r1 where step: "load_dir from_pretrained class_name path d (models, arch) w = (w1, r1)"
    by (cases "load_dir from_pretrained class_name path d (models, arch) w")
  with Cons.prems obtain models1 arch1 where r1: "r1 = Inr (models1, arch1)"
    and rest: "load_loop from_pretrained class_name path ds (models1, arch1) w1
                 = (w', Inr (models', arch'))"
    by (cases r1) auto
  from Cons.IH [OF rest] obtain ps2 where ps2: "loads w' = loads w1 @ ps2"
    "ps2 = [] \<longrightarrow> models' = models1 \<and> arch' = arch1"
    "ps2 \<noteq> [] \<longrightarrow> models' \<noteq> []
       \<and> (\<exists>m. from_pretrained (hd ps2) = Inr m
             \<and> arch' = (if falsy arch1 then Some (class_name m) else arch1))"
    by blast
  show ?case
  proof (cases "has_entries (fsys w) (os_path_join path d)")
    case False
    with step r1 have "w1 = w" "models1 = models" "arch1 = arch"
      by (simp_all add: load_dir_skip)
    with ps2 show ?thesis by blast
  next
    case True
    from load_dir_entries [OF True step [unfolded r1]]
    obtain p m where p: "from_pretrained p = Inr m" "models1 = AList.update d m models"
      "arch1 = (if falsy arch then Some (class_name m) else arch)"
      "loads w1 = loads w @ [p]"
      by (auto simp: print_def)
    from p(1,3) named have truthy: "\<not> falsy arch1"
      by (cases arch) auto
    from p(2) have ne1: "models1 \<noteq> []" by simp
    from ps2(2,3) ne1 truthy have "models' \<noteq> []" "arch' = arch1"
      by (cases "ps2 = []"; auto)+
    with p(1,3,4) ps2(1) show ?thesis
      by (intro exI [of _ "p # ps2"]) auto
  qed
qed

text \<open>
  C8. Provided the class name of a loaded model is never the empty string: when
  \<open>load_latest_checkpoints\<close> returns, \<open>arch\<close> is the class name of the model given by
  the first loader call of the run, and it is \<open>None\<close> with an empty collection when the
  run made no loader call. Once \<open>arch\<close> holds a non-empty name, the loop body returns
  it unchanged whatever model it loads.
\<close>

theorem load_latest_checkpoints_arch:
  assumes "\<forall>p m. from_pretrained p = Inr m \<longrightarrow> class_name m \<noteq> []"
    and "load_latest_checkpoints from_pretrained class_name path w = (w', Inr (models, arch))"
  shows "(\<exists>ps. loads w' = loads w @ ps
            \<and> (ps = [] \<longrightarrow> models = [] \<and> arch = None)
            \<and> (ps \<noteq> [] \<longrightarrow> models \<noteq> []
                  \<and> (\<exists>m. from_pretrained (hd ps) = Inr m \<and> arch = Some (class_name m))))
     \<and> (\<forall>model_dir models0 a w0 w1 models1 arch1.
           a \<noteq> [] \<and> load_dir from_pretrained class_name path model_dir (models0, Some a) w0
                      = (w1, Inr (models1, arch1))
           \<longrightarrow> arch1 = Some a)"
proof (rule conjI)
  from assms(2) obtain names where
    loop: "load_loop from_pretrained class_name path names ([], None) w
             = (w', Inr (models, arch))"
    by (auto simp: load_latest_checkpoints_def split: if_splits sum.splits)
  from assms(1) have named: "\<And>p m. from_pretrained p = Inr m \<Longrightarrow> class_name m \<noteq> []"
    by blast
  from load_loop_first_load [OF named loop]
  show "\<exists>ps. loads w' = loads w @ ps
            \<and> (ps = [] \<longrightarrow> models = [] \<and> arch = None)
            \<and> (ps \<noteq> [] \<longrightarrow> models \<noteq> []
                  \<and> (\<exists>m. from_pretrained (hd ps) = Inr m \<and> arch = Some (class_name m)))"
    by simp
next
  show "\<forall>model_dir models0 a w0 w1 models1 arch1.
           a \<noteq> [] \<and> load_dir from_pretrained class_name path model_dir (models0, Some a) w0
                      = (w1, Inr (models1, arch1))
           \<longrightarrow> arch1 = Some a"
  proof (intro allI impI)
    fix model_dir models0 a w0 w1 models1 arch1
    assume a: "a \<noteq> [] \<and> load_dir from_pretrained class_name path model_dir (models0, Some a) w0
                      = (w1, Inr (models1, arch1))"
    show "arch1 = Some a"
    proof (cases "has_entries (fsys w0) (os_path_join path model_dir)")
      case False
      with a show ?thesis by (simp add: load_dir_skip)
    next
      case True
      from load_dir_entries [OF True conjunct2 [OF a]] a show ?thesis by auto
    qed
  qed
qed

theorem load_latest_checkpoints_arch_witness:
  "(\<forall>m. example_class_name m \<noteq> [])
   \<and> (\<exists>w' models.
         load_latest_checkpoints example_loader example_class_name ''./ckpts''
           (fresh_world example_fs) = (w', Inr (models, Some ''Bert''))
         \<and> hd (loads w') = ''./ckpts/base/ckpt_new''
         \<and> (\<exists>m. example_loader (hd (loads w')) = Inr m \<and> Some ''Bert'' = Some (example_class_name m)))"
proof -
  let ?w = "fresh_world example_fs"
  have named: "\<forall>p m. example_loader p = Inr m \<longrightarrow> example_class_name m \<noteq> []"
    by (simp add: example_class_name_def)
  from load_latest_checkpoints_arch [OF named example_discovery]
  obtain ps where ps: "[''./ckpts/base/ckpt_new'', ''./ckpts/pruned/ckpt''] = loads ?w @ ps"
    "ps \<noteq> [] \<longrightarrow> (\<exists>m. example_loader (hd ps) = Inr m \<and> Some ''Bert'' = Some (example_class_name m))"
    by auto
  from ps(1) have "ps = [''./ckpts/base/ckpt_new'', ''./ckpts/pruned/ckpt'']"
    by (simp add: fresh_world_def)
  with ps(2) have "\<exists>m. example_loader ''./ckpts/base/ckpt_new'' = Inr m
                     \<and> Some ''Bert'' = Some (example_class_name m)"
    by simp
  moreover have "\<forall>m. example_class_name m \<noteq> []"
    by (simp add: example_class_name_def)
  ultimately show ?thesis
    using example_discovery by simp
qed

section \<open>The evaluator matrix\<close>

lemma update_new_key: "k \<notin> fst ` set al \<Longrightarrow> AList.update k v al = al @ [(k, v)]"
  by (induction al) auto

lemma map_entry_present:
  "map_of al k = Some v \<Longrightarrow> AList.map_entry k f al = AList.update k (f v) al"
  by (induction al) auto

lemma build_row_fresh:
  assumes "distinct (map fst models)"
    and "map_of evaluators_dict (name_of c) = Some inner"
    and "fst ` set models \<inter> fst ` set inner = {}"
  shows "build_row c models tok dev evaluators_dict w
         = (w\<lparr>next_id := next_id w + 2 * length models\<rparr>,
            AList.update (name_of c) (inner @ fresh_row c tok dev (next_id w) models)
              evaluators_dict)"
  using assms
proof (induction models arbitrary: evaluators_dict inner w)
  case Nil
  then show ?case by (simp add: update_triv)
next
  case (Cons variant models)
  obtain name m where variant: "variant = (name, m)" by (cases variant)
  let ?e = "\<lparr>evaluator_id = next_id w + 1,
             explainer = \<lparr>explainer_id = next_id w, explainer_class = c, model = m,
                          tokenizer = tok, device = dev\<rparr>\<rparr>"
  let ?inner = "inner @ [(name, ?e)]"
  let ?dict = "AList.update (name_of c) ?inner evaluators_dict"
  let ?w = "w\<lparr>next_id := next_id w + 2\<rparr>"
  from Cons.prems(3) variant have "name \<notin> fst ` set inner" by auto
  then have "AList.update name ?e inner = ?inner" by (rule update_new_key)
  with Cons.prems(2)
  have entry: "AList.map_entry (name_of c) (AList.update name ?e) evaluators_dict = ?dict"
    by (simp add: map_entry_present)
  have step: "build_row c (variant # models) tok dev evaluators_dict w
                = build_row c models tok dev ?dict ?w"
    using entry by (simp add: variant new_explainer_def new_evaluator_def)
  have "build_row c models tok dev ?dict ?w
          = (?w\<lparr>next_id := next_id ?w + 2 * length models\<rparr>,
             AList.update (name_of c) (?inner @ fresh_row c tok dev (next_id ?w) models) ?dict)"
  proof (rule Cons.IH)
    from Cons.prems(1) show "distinct (map fst models)" by simp
    show "map_of ?dict (name_of c) = Some ?inner" by (simp add: update_conv')
    from Cons.prems(1,3) variant show "fst ` set models \<inter> fst ` set ?inner = {}"
      by (auto simp: image_iff)
  qed
  with step show ?case by (simp add: variant)
qed

lemma build_evaluators_step:
  assumes "distinct (map fst models)"
  shows "build_evaluators (c # rest) models tok dev evaluators_dict w
         = build_evaluators rest models tok dev
             (AList.update (name_of c) (fresh_row c tok dev (next_id w) models) evaluators_dict)
             (w\<lparr>next_id := next_id w + 2 * length models\<rparr>)"
proof -
  have "build_row c models tok dev (AList.update (name_of c) [] evaluators_dict) w
        = (w\<lparr>next_id := next_id w + 2 * length models\<rparr>,
           AList.update (name_of c) ([] @ fresh_row c tok dev (next_id w) models)
             (AList.update (name_of c) [] evaluators_dict))"
    by (rule build_row_fresh [OF assms]) (simp_all add: update_conv')
  then show ?thesis by simp
qed

lemma row_ids_fresh_row: "row_ids (fresh_row c tok dev n models) = [n ..< n + 2 * length models]"
proof (induction models arbitrary: n)
  case Nil
  then show ?case by (simp add: row_ids_def)
next
  case (Cons variant models)
  obtain name m where variant: "variant = (name, m)" by (cases variant)
  from Cons [of "n + 2"] have "row_ids (fresh_row c tok dev (n + 2) models)
      = [n + 2 ..< n + 2 + 2 * length models]" .
  then have "row_ids (fresh_row c tok dev n (variant # models))
      = n # (n + 1) # [n + 2 ..< n + 2 + 2 * length models]"
    by (simp add: row_ids_def variant)
  also have "\<dots> = [n ..< n + 2 * length (variant # models)]"
  proof -
    have "[n ..< n + 2 * length (variant # models)]
            = n # [Suc n ..< n + 2 * length (variant # models)]"
      by (rule upt_conv_Cons) simp
    also have "[Suc n ..< n + 2 * length (variant # models)]
            = Suc n # [Suc (Suc n) ..< n + 2 * length (variant # models)]"
      by (rule upt_conv_Cons) simp
    finally show ?thesis by simp
  qed
  finally show ?case .
qed

lemma fresh_row_bound:
  "list_all2 (bound_to c tok dev) models (fresh_row c tok dev n models)"
  by (induction c tok dev n models rule: fresh_row.induct) (simp_all add: bound_to_def)

lemma object_ids_Nil: "object_ids [] = []"
  by (simp add: object_ids_def)

lemma object_ids_Cons: "object_ids ((k, row) # al) = row_ids row @ object_ids al"
  by (simp add: object_ids_def)

lemma object_ids_update_subset:
  "set (object_ids (AList.update k row al)) \<subseteq> set (row_ids row) \<union> set (object_ids al)"
  by (induction al) (auto simp: object_ids_Nil object_ids_Cons)

lemma distinct_object_ids_update:
  assumes "distinct (object_ids al)" and "distinct (row_ids row)"
    and "set (row_ids row) \<inter> set (object_ids al) = {}"
  shows "distinct (object_ids (AList.update k row al))"
  using assms
proof (induction al)
  case Nil
  then show ?case by (simp add: object_ids_Nil object_ids_Cons)
next
  case (Cons entry al)
  obtain k' row' where entry: "entry = (k', row')" by (cases entry)
  show ?case
  proof (cases "k' = k")
    case True
    with Cons.prems entry show ?thesis
      by (auto simp: object_ids_Cons)
  next
    case False
    from Cons.prems entry have "distinct (object_ids (AList.update k row al))"
      by (intro Cons.IH) (auto simp: object_ids_Cons)
    moreover from Cons.prems entry object_ids_update_subset [of k row al]
    have "set (row_ids row') \<inter> set (object_ids (AList.update k row al)) = {}"
      by (auto simp: object_ids_Cons)
    moreover from Cons.prems(1) entry have "distinct (row_ids row')"
      by (simp add: object_ids_Cons)
    ultimately show ?thesis using False entry
      by (simp add: object_ids_Cons)
  qed
qed

lemma set_update_subset: "set (AList.update k v al) \<subseteq> insert (k, v) (set al)"
  by (induction al) auto

lemma name_of_inject: "name_of c = name_of c' \<Longrightarrow> c = c'"
  by (cases c; cases c') simp_all

lemma length_concat_rows:
  "\<forall>x \<in> set xs. length (f x) = n \<Longrightarrow> length (concat (map f xs)) = length xs * n"
  by (induction xs) simp_all

lemma build_evaluators_invariant:
  assumes "distinct (map fst models)"
    and "build_evaluators explainers models tok dev evaluators_dict w = (w', result)"
    and "distinct (map fst evaluators_dict)"
    and "distinct (object_ids evaluators_dict)"
    and "\<forall>i \<in> set (object_ids evaluators_dict). lo \<le> i \<and> i < next_id w"
    and "\<forall>(k, row) \<in> set evaluators_dict.
           \<exists>c. k = name_of c \<and> list_all2 (bound_to c tok dev) models row"
    and "lo \<le> next_id w"
  shows "distinct (map fst result) \<and> distinct (object_ids result)
     \<and> (\<forall>i \<in> set (object_ids result). lo \<le> i \<and> i < next_id w')
     \<and> (\<forall>(k, row) \<in> set result. \<exists>c. k = name_of c \<and> list_all2 (bound_to c tok dev) models row)
     \<and> fst ` set result = fst ` set evaluators_dict \<union> name_of ` set explainers
     \<and> w' = w\<lparr>next_id := next_id w'\<rparr>"
  using assms(2-)
proof (induction explainers arbitrary: evaluators_dict w)
  case Nil
  then show ?case by auto
next
  case (Cons c rest)
  let ?row = "fresh_row c tok dev (next_id w) models"
  let ?dict = "AList.update (name_of c) ?row evaluators_dict"
  let ?w = "w\<lparr>next_id := next_id w + 2 * length models\<rparr>"
  from Cons.prems(1) have run: "build_evaluators rest models tok dev ?dict ?w = (w', result)"
    by (simp only: build_evaluators_step [OF assms(1)])
  have ids: "set (row_ids ?row) = {next_id w ..< next_id w + 2 * length models}"
    by (simp add: row_ids_fresh_row)
  have "distinct (map fst result) \<and> distinct (object_ids result)
     \<and> (\<forall>i \<in> set (object_ids result). lo \<le> i \<and> i < next_id w')
     \<and> (\<forall>(k, row) \<in> set result. \<exists>c. k = name_of c \<and> list_all2 (bound_to c tok dev) models row)
     \<and> fst ` set result = fst ` set ?dict \<union> name_of ` set rest
     \<and> w' = ?w\<lparr>next_id := next_id w'\<rparr>"
  proof (rule Cons.IH [OF run])
    from Cons.prems(2) show "distinct (map fst ?dict)"
      by (rule distinct_update)
    show "distinct (object_ids ?dict)"
    proof (rule distinct_object_ids_update)
      show "distinct (object_ids evaluators_dict)" by (rule Cons.prems(3))
      show "distinct (row_ids ?row)" by (simp add: row_ids_fresh_row)
      from Cons.prems(4) ids show "set (row_ids ?row) \<inter> set (object_ids evaluators_dict) = {}"
        by fastforce
    qed
    show "\<forall>i \<in> set (object_ids ?dict). lo \<le> i \<and> i < next_id ?w"
    proof
      fix i assume "i \<in> set (object_ids ?dict)"
      with object_ids_update_subset [of "name_of c" ?row evaluators_dict]
      have "i \<in> set (row_ids ?row) \<or> i \<in> set (object_ids evaluators_dict)" by auto
      with ids Cons.prems(4,6) show "lo \<le> i \<and> i < next_id ?w" by fastforce
    qed
    show "\<forall>(k, row) \<in> set ?dict. \<exists>c. k = name_of c \<and> list_all2 (bound_to c tok dev) models row"
    proof (clarify)
      fix k row assume "(k, row) \<in> set ?dict"
      with set_update_subset [of "name_of c" ?row evaluators_dict]
      have "(k, row) = (name_of c, ?row) \<or> (k, row) \<in> set evaluators_dict" by auto
      then show "\<exists>c. k = name_of c \<and> list_all2 (bound_to c tok dev) models row"
      proof
        assume "(k, row) = (name_of c, ?row)"
        then show ?thesis using fresh_row_bound [of c tok dev models "next_id w"] by auto
      next
        assume "(k, row) \<in> set evaluators_dict"
        with Cons.prems(5) show ?thesis by auto
      qed
    qed
    from Cons.prems(6) show "lo \<le> next_id ?w" by simp
  qed
  then show ?case
    by (simp add: dom_update Un_ac insert_commute)
qed

lemma load_dir_distinct:
  assumes "load_dir from_pretrained class_name path model_dir st w = (w1, Inr st1)"
    and "distinct (map fst (fst st))"
  shows "distinct (map fst (fst st1))"
proof (cases "has_entries (fsys w) (os_path_join path model_dir)")
  case False
  with assms show ?thesis by (simp add: load_dir_skip)
next
  case True
  from load_dir_entries [OF True assms(1)] assms(2) show ?thesis
    by (auto simp: distinct_update)
qed

lemma load_loop_distinct:
  assumes "load_loop from_pretrained class_name path ds st w = (w', Inr st')"
    and "distinct (map fst (fst st))"
  shows "distinct (map fst (fst st'))"
  using assms
proof (induction ds arbitrary: st w)
  case Nil
  then show ?case by simp
next
  case (Cons d ds)
  obtain w1 r1 where step: "load_dir from_pretrained class_name path d st w = (w1, r1)"
    by (cases "load_dir from_pretrained class_name path d st w")
  with Cons.prems(1) obtain st1 where r1: "r1 = Inr st1"
    and rest: "load_loop from_pretrained class_name path ds st1 w1 = (w', Inr st')"
    by (cases r1) auto
  from load_dir_distinct [OF step [unfolded r1] Cons.prems(2)]
  show ?case by (rule Cons.IH [OF rest])
qed

lemma load_latest_checkpoints_distinct:
  "load_latest_checkpoints from_pretrained class_name path w = (w', Inr (models, arch))
   \<Longrightarrow> distinct (map fst models)"
  by (auto simp: load_latest_checkpoints_def split: if_splits sum.splits
           dest!: load_loop_distinct)

text \<open>
  C4. For every list of explainer classes and every collection whose variant names
  are pairwise different (as the keys of a dictionary are), the matrix built by lines
  29 to 34 has one row per requested class, keyed by the class name; the row holds,
  variant by variant and in the collection's order, one \<open>Evaluator\<close> whose explainer is
  of that class and was built from that variant's model, the tokenizer and the device.
  The identities of all explainers and evaluators in the matrix are pairwise
  different and were not in use before the call, so no object is shared between two
  entries. The matrix holds as many evaluators as there are requested classes times
  variants.
\<close>

theorem build_evaluators_matrix:
  assumes "distinct (map fst models)"
    and "build_evaluators explainers models tok dev [] w = (w', evaluators_dict)"
  shows "distinct (map fst evaluators_dict)
     \<and> set (map fst evaluators_dict) = name_of ` set explainers
     \<and> (\<forall>c \<in> set explainers. \<exists>row. map_of evaluators_dict (name_of c) = Some row
            \<and> list_all2 (bound_to c tok dev) models row)
     \<and> distinct (object_ids evaluators_dict)
     \<and> (\<forall>i \<in> set (object_ids evaluators_dict). next_id w \<le> i \<and> i < next_id w')
     \<and> length (concat (map snd evaluators_dict)) = card (set explainers) * length models"
proof -
  from build_evaluators_invariant [OF assms, of "next_id w"]
  have keys: "distinct (map fst evaluators_dict)"
    and ids: "distinct (object_ids evaluators_dict)"
    and fresh: "\<forall>i \<in> set (object_ids evaluators_dict). next_id w \<le> i \<and> i < next_id w'"
    and rows: "\<forall>(k, row) \<in> set evaluators_dict.
                 \<exists>c. k = name_of c \<and> list_all2 (bound_to c tok dev) models row"
    and dom: "fst ` set evaluators_dict = name_of ` set explainers"
    by (simp_all add: object_ids_Nil)
  have row_of: "\<exists>row. map_of evaluators_dict (name_of c) = Some row
                  \<and> list_all2 (bound_to c tok dev) models row"
    if "c \<in> set explainers" for c
  proof -
    from that dom obtain row where row: "(name_of c, row) \<in> set evaluators_dict"
      by force
    with rows obtain c' where "name_of c = name_of c'"
      "list_all2 (bound_to c' tok dev) models row" by auto
    with name_of_inject have "list_all2 (bound_to c tok dev) models row" by auto
    moreover from keys row have "map_of evaluators_dict (name_of c) = Some row" by simp
    ultimately show ?thesis by blast
  qed
  have "\<forall>entry \<in> set evaluators_dict. length (snd entry) = length models"
  proof
    fix entry assume "entry \<in> set evaluators_dict"
    with rows obtain c where "list_all2 (bound_to c tok dev) models (snd entry)"
      by (cases entry) auto
    then show "length (snd entry) = length models"
      by (simp add: list_all2_lengthD)
  qed
  then have "length (concat (map snd evaluators_dict)) = length evaluators_dict * length models"
    by (rule length_concat_rows)
  moreover have "length evaluators_dict = card (set explainers)"
  proof -
    have "length evaluators_dict = card (set (map fst evaluators_dict))"
      using distinct_card [OF keys] by simp
    also have "\<dots> = card (name_of ` set explainers)"
      using dom by simp
    also have "\<dots> = card (set explainers)"
      by (rule card_image) (auto intro: inj_onI name_of_inject)
    finally show ?thesis .
  qed
  ultimately show ?thesis
    using keys ids fresh dom row_of by simp
qed

theorem build_evaluators_matrix_witness:
  "distinct (map fst three_variants)
   \<and> length (concat (map snd (snd (build_evaluators [SHAP, LIME] three_variants () ()
                 [] (fresh_world []))))) = 6
   \<and> distinct (object_ids (snd (build_evaluators [SHAP, LIME] three_variants () ()
                 [] (fresh_world []))))"
proof -
  have keys: "distinct (map fst three_variants)"
    by (simp add: three_variants_def)
  have run: "build_evaluators [SHAP, LIME] three_variants () () [] (fresh_world [])
      = (fst (build_evaluators [SHAP, LIME] three_variants () () [] (fresh_world [])),
         snd (build_evaluators [SHAP, LIME] three_variants () () [] (fresh_world [])))"
    by simp
  have "card (set [SHAP, LIME]) * length three_variants = 6"
    by (simp add: three_variants_def)
  with build_evaluators_matrix [OF keys run] keys show ?thesis
    by simp
qed


section \<open>Scoring: a raising evaluator\<close>

lemma score_loop_frame:
  "score_loop score test_set ptg expl evaluators infidelities w = (w', r) \<Longrightarrow>
   fsys w' = fsys w \<and> fig w' = fig w \<and> saved w' = saved w"
proof (induction evaluators arbitrary: infidelities w)
  case Nil
  then show ?case by simp
next
  case (Cons entry evaluators)
  obtain m evaluator where entry: "entry = (m, evaluator)" by (cases entry)
  obtain r1 res where sc: "score evaluator test_set 1 ptg (rng w) = (r1, res)"
    by (cases "score evaluator test_set 1 ptg (rng w)")
  show ?case
  proof (cases res)
    case (Inl e)
    with Cons.prems entry sc show ?thesis by auto
  next
    case (Inr infid)
    with Cons.prems entry sc
    have "score_loop score test_set ptg expl evaluators (AList.update m infid infidelities)
            (print (InfidelityOf expl m infid) (w\<lparr>rng := r1\<rparr>)) = (w', r)"
      by simp
    from Cons.IH [OF this] show ?thesis by (simp add: print_def)
  qed
qed

lemma score_loop_raise:
  assumes "score_loop score test_set ptg expl evs1 infidelities w = (w1, Inr infidelities1)"
    and "score evaluator test_set 1 ptg (rng w1) = (r, Inl e)"
  shows "score_loop score test_set ptg expl (evs1 @ (m, evaluator) # evs2) infidelities w
         = (w1\<lparr>rng := r\<rparr>, Inl e)"
  using assms
proof (induction evs1 arbitrary: infidelities w)
  case Nil
  then show ?case by simp
next
  case (Cons entry evs1)
  obtain m0 ev0 where entry: "entry = (m0, ev0)" by (cases entry)
  obtain r1 res where sc: "score ev0 test_set 1 ptg (rng w) = (r1, res)"
    by (cases "score ev0 test_set 1 ptg (rng w)")
  show ?case
  proof (cases res)
    case (Inl e0)
    with Cons.prems(1) entry sc show ?thesis by simp
  next
    case (Inr infid)
    with Cons.prems(1) entry sc
    have "score_loop score test_set ptg expl evs1 (AList.update m0 infid infidelities)
            (print (InfidelityOf expl m0 infid) (w\<lparr>rng := r1\<rparr>)) = (w1, Inr infidelities1)"
      by simp
    from Cons.IH [OF this Cons.prems(2)] entry sc Inr show ?thesis by simp
  qed
qed

lemma eval_loop_append:
  "eval_loop score render arch test_set ptg (xs @ ys) w =
     (case eval_loop score render arch test_set ptg xs w of
        (w1, Inl e) \<Rightarrow> (w1, Inl e)
      | (w1, Inr u) \<Rightarrow> eval_loop score render arch test_set ptg ys w1)"
proof (induction xs arbitrary: w)
  case Nil
  then show ?case by simp
next
  case (Cons entry xs)
  obtain expl evaluators where entry: "entry = (expl, evaluators)" by (cases entry)
  show ?case
  proof (cases "score_loop score test_set ptg expl evaluators []
                  (print (EvaluatingInfidelity expl) w)")
    case (Pair w1 r1)
    show ?thesis
    proof (cases r1)
      case (Inl e)
      with Pair entry show ?thesis by simp
    next
      case (Inr infidelities)
      show ?thesis
      proof (cases "save_bar_chart render expl arch
                      (w1\<lparr>fig := create_bar_chart expl arch infidelities (fig w1)\<rparr>)")
        case saved: (Pair w2 r2)
        with Pair Inr entry Cons.IH show ?thesis
          by (cases r2) simp_all
      qed
    qed
  qed
qed

text \<open>
  C5. Let discovery return and the matrix be built, let the classes before \<open>expl\<close> in
  the matrix be processed without error, leaving the world \<open>w3\<close>, and let the scorer
  return scores for the variants \<open>evs1\<close> of \<open>expl\<close> and then raise \<open>e\<close> for the next
  evaluator. Then \<open>eval_models\<close> ends with that same error \<open>e\<close>, in the world of the
  raise; in that world the saved charts, the filesystem and the figure are exactly
  what they were in \<open>w3\<close>: nothing was drawn or written for \<open>expl\<close>, the scores
  collected so far are dropped, and no later class is processed.
\<close>

theorem eval_models_scoring_error:
  assumes "load_latest_checkpoints from_pretrained class_name path (print (LoadingModels path) w)
             = (w1, Inr (models, arch))"
    and "build_evaluators explainers models tok dev [] (print (CreatingEvaluators arch) w1)
             = (w2, before @ (expl, evs1 @ (m, evaluator) # evs2) # after)"
    and "eval_loop score render arch test_set ptg before w2 = (w3, Inr ())"
    and "score_loop score test_set ptg expl evs1 [] (print (EvaluatingInfidelity expl) w3)
             = (w4, Inr infidelities)"
    and "score evaluator test_set 1 ptg (rng w4) = (r, Inl e)"
  shows "eval_models from_pretrained class_name score render path tok explainers test_set dev ptg w
           = (w4\<lparr>rng := r\<rparr>, Inl e)
     \<and> saved w4 = saved w3 \<and> fsys w4 = fsys w3 \<and> fig w4 = fig w3"
proof -
  from score_loop_raise [OF assms(4,5)]
  have "score_loop score test_set ptg expl (evs1 @ (m, evaluator) # evs2) []
          (print (EvaluatingInfidelity expl) w3) = (w4\<lparr>rng := r\<rparr>, Inl e)" .
  then have "eval_loop score render arch test_set ptg ((expl, evs1 @ (m, evaluator) # evs2) # after) w3
          = (w4\<lparr>rng := r\<rparr>, Inl e)"
    by simp
  with assms(3)
  have "eval_loop score render arch test_set ptg (before @ (expl, evs1 @ (m, evaluator) # evs2) # after) w2
          = (w4\<lparr>rng := r\<rparr>, Inl e)"
    by (simp add: eval_loop_append)
  with assms(1,2)
  have "eval_models from_pretrained class_name score render path tok explainers test_set dev ptg w
          = (w4\<lparr>rng := r\<rparr>, Inl e)"
    by (simp add: eval_models_def)
  moreover from score_loop_frame [OF assms(4)]
  have "saved w4 = saved w3 \<and> fsys w4 = fsys w3 \<and> fig w4 = fig w3"
    by (simp add: print_def)
  ultimately show ?thesis by simp
qed

theorem eval_models_scoring_error_witness:
  "snd (eval_models example_loader example_class_name example_score example_render
          ''./ckpts'' () [SHAP]
          () () 0.05 (fresh_world example_fs))
     = Inl (Raised ''scoring failed'')
   \<and> saved (fst (eval_models example_loader example_class_name example_score example_render
          ''./ckpts'' ()
          [SHAP] () () 0.05 (fresh_world example_fs))) = []
   \<and> reported (stdout (fst (eval_models example_loader example_class_name example_score example_render
          ''./ckpts'' () [SHAP] () () 0.05 (fresh_world example_fs))))
       = [(''SHAP'', ''base'', 0)]"
proof -
  let ?w = "fresh_world example_fs"
  define models where
    "models = [(''base'', ''./ckpts/base/ckpt_new''), (''pruned'', ''./ckpts/pruned/ckpt'')]"
  define w1 where
    "w1 = ?w\<lparr>stdout := [LoadingModels ''./ckpts'',
                          Loaded ''./ckpts/base'' ''./ckpts/base/ckpt_new'',
                          Loaded ''./ckpts/pruned'' ''./ckpts/pruned/ckpt''],
               loads := [''./ckpts/base/ckpt_new'', ''./ckpts/pruned/ckpt'']\<rparr>"
  define ev0 :: "(string, unit, unit) evaluator_obj" where
    "ev0 = \<lparr>evaluator_id = 1,
            explainer = \<lparr>explainer_id = 0, explainer_class = SHAP,
                         model = ''./ckpts/base/ckpt_new'', tokenizer = (), device = ()\<rparr>\<rparr>"
  define ev1 :: "(string, unit, unit) evaluator_obj" where
    "ev1 = \<lparr>evaluator_id = 3,
            explainer = \<lparr>explainer_id = 2, explainer_class = SHAP,
                         model = ''./ckpts/pruned/ckpt'', tokenizer = (), device = ()\<rparr>\<rparr>"
  define w2 where
    "w2 = w1\<lparr>next_id := 4, stdout := stdout w1 @ [CreatingEvaluators (Some ''Bert'')]\<rparr>"
  define w4 where
    "w4 = w2\<lparr>rng := 1,
              stdout := stdout w2 @ [EvaluatingInfidelity ''SHAP'',
                                     InfidelityOf ''SHAP'' ''base'' 0]\<rparr>"
  have h1: "load_latest_checkpoints example_loader example_class_name ''./ckpts''
              (print (LoadingModels ''./ckpts'') ?w) = (w1, Inr (models, Some ''Bert''))"
    unfolding w1_def models_def
    by (simp add: load_latest_checkpoints_def load_dir_def fresh_world_def example_fs_def
          os_path_isdir_def os_listdir_def os_path_join_def sorted_by_getmtime_def
          sorted_reverse_def os_path_getmtime_def example_loader_def example_class_name_def
          print_def Let_def)
  have h2: "build_evaluators [SHAP] models () () [] (print (CreatingEvaluators (Some ''Bert'')) w1)
              = (w2, [] @ (''SHAP'', [(''base'', ev0)] @ (''pruned'', ev1) # []) # [])"
    by (simp add: models_def w2_def w1_def ev0_def ev1_def new_explainer_def new_evaluator_def
          print_def fresh_world_def)
  have h3: "eval_loop example_score example_render (Some ''Bert'') () 0.05 [] w2 = (w2, Inr ())"
    by simp
  have h4: "score_loop example_score () 0.05 ''SHAP'' [(''base'', ev0)] []
              (print (EvaluatingInfidelity ''SHAP'') w2) = (w4, Inr [(''base'', 0)])"
    by (simp add: example_score_def ev0_def print_def w4_def w2_def w1_def fresh_world_def)
  have h5: "example_score ev1 () 1 0.05 (rng w4) = (2, Inl (Raised ''scoring failed''))"
    by (simp add: example_score_def ev1_def w4_def)
  from eval_models_scoring_error [OF h1 h2 h3 h4 h5]
  have "eval_models example_loader example_class_name example_score example_render
          ''./ckpts'' () [SHAP]
          () () 0.05 ?w = (w4\<lparr>rng := 2\<rparr>, Inl (Raised ''scoring failed''))"
    by simp
  then show ?thesis
    by (simp add: w4_def w2_def w1_def fresh_world_def)
qed


section \<open>Saving into \<open>results/figs\<close>\<close>

lemma digit_in_digits: "d < 10 \<Longrightarrow> digit d \<in> set ''0123456789''"
  unfolding digit_def by (rule nth_mem) simp

lemma str_nat_digits: "set (str_nat n) \<subseteq> set ''0123456789''"
proof (induction n rule: str_nat.induct)
  case (1 n)
  show ?case
  proof (cases "n < 10")
    case True
    with digit_in_digits [of n] show ?thesis
      by (subst str_nat.simps) simp
  next
    case False
    have "n mod 10 < 10" by simp
    from digit_in_digits [OF this] "1.IH" [OF False] False show ?thesis
      by (subst str_nat.simps) simp
  qed
qed

lemma str_nat_no_slash: "CHR ''/'' \<notin> set (str_nat n)"
  using str_nat_digits [of n] by auto

lemma dropWhile_rev_no_slash:
  "CHR ''/'' \<notin> set xs \<Longrightarrow>
   dropWhile (\<lambda>c. c \<noteq> CHR ''/'') (rev xs @ ys) = dropWhile (\<lambda>c. c \<noteq> CHR ''/'') ys"
  by (rule dropWhile_append2) auto

lemma dirname_in_figs:
  assumes "CHR ''/'' \<notin> set rest"
  shows "os_path_dirname (''results/figs/'' @ rest) = ''results/figs''"
proof -
  have "rev (''results/figs/'' @ rest) = rev rest @ ''/sgif/stluser''"
    by simp
  then have "dropWhile (\<lambda>c. c \<noteq> CHR ''/'') (rev (''results/figs/'' @ rest)) = ''/sgif/stluser''"
    using dropWhile_rev_no_slash [OF assms, of "''/sgif/stluser''"] by simp
  then show ?thesis
    by (simp add: os_path_dirname_def)
qed

lemma dirname_candidate:
  assumes "CHR ''/'' \<notin> set expl" and "CHR ''/'' \<notin> set (format_arch arch)"
  shows "os_path_dirname (candidate (save_path_of expl arch) ''.png'' n) = ''results/figs''"
proof (cases n)
  case 0
  have eq: "candidate (save_path_of expl arch) ''.png'' 0
          = ''results/figs/'' @ (expl @ ''_topk_'' @ format_arch arch @ ''.png'')"
    by (simp add: save_path_of_def)
  from assms have "CHR ''/'' \<notin> set (expl @ ''_topk_'' @ format_arch arch @ ''.png'')"
    by simp
  from dirname_in_figs [OF this] show ?thesis
    unfolding 0 eq .
next
  case (Suc k)
  have eq: "candidate (save_path_of expl arch) ''.png'' (Suc k)
          = ''results/figs/''
              @ (expl @ ''_topk_'' @ format_arch arch @ ''_'' @ str_nat (Suc k) @ ''.png'')"
    by (simp add: save_path_of_def suffixed_def)
  from assms str_nat_no_slash [of "Suc k"]
  have "CHR ''/'' \<notin> set (expl @ ''_topk_'' @ format_arch arch @ ''_'' @ str_nat (Suc k) @ ''.png'')"
    by simp
  from dirname_in_figs [OF this] show ?thesis
    unfolding Suc eq .
qed

lemma dirname_unique_filename:
  assumes "CHR ''/'' \<notin> set expl" and "CHR ''/'' \<notin> set (format_arch arch)"
  shows "os_path_dirname (unique_filename fs (save_path_of expl arch) ''.png'') = ''results/figs''"
  using unique_filename_candidate [of fs "save_path_of expl arch" "''.png''"]
    dirname_candidate [OF assms] by auto

lemma open_for_writing_in_dir:
  assumes "\<not> os_path_exists fs p" and "os_path_dirname p = d" and "d \<noteq> []"
    and "os_path_isdir fs d"
  shows "\<exists>fs'. open_for_writing fs now p = Inr fs' \<and> os_path_isdir fs' d"
proof -
  from assms(1) have none: "map_of fs p = None"
    by (simp add: os_path_exists_def split: option.splits)
  from assms(4) obtain t ns where dir: "map_of fs d = Some (Dir t ns)"
    by (auto simp: os_path_isdir_def split: option.splits node.splits)
  from none dir have "p \<noteq> d" by auto
  with none dir assms(2,3) show ?thesis
    by (simp add: open_for_writing_def os_path_isdir_def update_conv')
qed

lemma open_for_writing_no_dir:
  assumes "\<not> os_path_exists fs p" and "os_path_dirname p = d" and "d \<noteq> []"
    and "\<not> os_path_exists fs d"
  shows "open_for_writing fs now p = Inl (FileNotFoundError p)"
  using assms
  by (simp add: open_for_writing_def os_path_exists_def split: option.splits)

lemma save_bar_chart_ok:
  assumes "render (fig w) = Inr ()"
    and "os_path_dirname (unique_filename (fsys w) (save_path_of expl arch) ''.png'') = d"
    and "d \<noteq> []" and "os_path_isdir (fsys w) d"
  shows "\<exists>w'. save_bar_chart render expl arch w = (w', Inr ())
     \<and> saved w' = saved w @ [(unique_filename (fsys w) (save_path_of expl arch) ''.png'', fig w)]
     \<and> fig w' = fig w \<and> rng w' = rng w \<and> os_path_isdir (fsys w') d"
proof -
  let ?p = "unique_filename (fsys w) (save_path_of expl arch) ''.png''"
  have free: "\<not> os_path_exists (fsys w) ?p"
    unfolding unique_filename_def by (rule unique_filename_loop_free)
  from open_for_writing_in_dir [OF free assms(2-4), of "clock w"]
  obtain fs' where fs': "open_for_writing (fsys w) (clock w) ?p = Inr fs'"
    "os_path_isdir fs' d" by blast
  with assms(1) show ?thesis
    by (simp add: save_bar_chart_def savefig_def Let_def print_def)
qed

lemma save_bar_chart_no_dir:
  assumes "render (fig w) = Inr ()"
    and "os_path_dirname (unique_filename (fsys w) (save_path_of expl arch) ''.png'') = d"
    and "d \<noteq> []" and "\<not> os_path_exists (fsys w) d"
  shows "save_bar_chart render expl arch w
         = (w, Inl (FileNotFoundError
                     (unique_filename (fsys w) (save_path_of expl arch) ''.png'')))"
proof -
  let ?p = "unique_filename (fsys w) (save_path_of expl arch) ''.png''"
  have free: "\<not> os_path_exists (fsys w) ?p"
    unfolding unique_filename_def by (rule unique_filename_loop_free)
  from open_for_writing_no_dir [OF free assms(2-4), of "clock w"] assms(1) show ?thesis
    by (simp add: save_bar_chart_def savefig_def Let_def)
qed

lemma isfile_exists: "os_path_isfile fs p \<Longrightarrow> os_path_exists fs p"
  by (auto simp: os_path_isfile_def os_path_exists_def split: option.splits)

lemma open_for_writing_kept:
  assumes "\<not> os_path_exists fs p" and "open_for_writing fs now p = Inr fs'"
  shows "os_path_isfile fs' p
     \<and> (\<forall>q. os_path_isfile fs q \<longrightarrow> os_path_isfile fs' q)
     \<and> (\<forall>q. os_path_exists fs q \<longrightarrow> os_path_exists fs' q)"
proof (intro conjI allI impI)
  from open_for_writing_new(1) [OF assms] show "os_path_isfile fs' p"
    by (simp add: os_path_isfile_def)
next
  fix q assume q: "os_path_isfile fs q"
  then have "os_path_exists fs q" by (rule isfile_exists)
  from open_for_writing_new(2) [OF assms this] q show "os_path_isfile fs' q"
    by (auto simp: os_path_isfile_def os_path_isdir_def split: option.splits node.splits)
next
  fix q assume q: "os_path_exists fs q"
  from open_for_writing_new(2) [OF assms this] q show "os_path_exists fs' q"
    by (auto simp: os_path_exists_def os_path_isdir_def split: option.splits node.splits)
qed

lemma save_bar_chart_writes:
  assumes "save_bar_chart render expl arch w = (w', Inr ())"
  shows "os_path_isfile (fsys w') (unique_filename (fsys w) (save_path_of expl arch) ''.png'')
     \<and> \<not> os_path_exists (fsys w) (unique_filename (fsys w) (save_path_of expl arch) ''.png'')
     \<and> (\<forall>q. os_path_isfile (fsys w) q \<longrightarrow> os_path_isfile (fsys w') q)
     \<and> (\<forall>q. os_path_exists (fsys w) q \<longrightarrow> os_path_exists (fsys w') q)"
proof -
  let ?p = "unique_filename (fsys w) (save_path_of expl arch) ''.png''"
  have free: "\<not> os_path_exists (fsys w) ?p"
    unfolding unique_filename_def by (rule unique_filename_loop_free)
  from save_bar_chart_cases [OF assms] obtain fs where
    fs: "open_for_writing (fsys w) (clock w) ?p = Inr fs" and w': "fsys w' = fs"
    by (auto simp: print_def)
  from open_for_writing_kept [OF free fs] free w' show ?thesis
    by simp
qed

section \<open>Scoring: determinism\<close>

lemma reported_append: "reported (xs @ ys) = reported xs @ reported ys"
  by (induction xs rule: reported.induct) simp_all

lemma score_loop_pure:
  assumes "distinct (map fst evaluators)"
    and "fst ` set evaluators \<inter> fst ` set infidelities = {}"
    and "score_loop score test_set ptg expl evaluators infidelities w = (w', r)"
  shows "(\<exists>e. r = Inl e
            \<and> infidelity_result score test_set ptg evaluators (rng w) = (rng w', Inl e))
     \<or> (\<exists>result. r = Inr (infidelities @ result)
            \<and> infidelity_result score test_set ptg evaluators (rng w) = (rng w', Inr result)
            \<and> reported (stdout w') = reported (stdout w) @ score_lines expl result)"
  using assms
proof (induction evaluators arbitrary: infidelities w)
  case Nil
  then show ?case by (auto simp: score_lines_def)
next
  case (Cons entry evaluators)
  obtain m evaluator where entry: "entry = (m, evaluator)" by (cases entry)
  obtain r1 res where sc: "score evaluator test_set 1 ptg (rng w) = (r1, res)"
    by (cases "score evaluator test_set 1 ptg (rng w)")
  show ?case
  proof (cases res)
    case (Inl e)
    with Cons.prems(3) entry sc have "w' = w\<lparr>rng := r1\<rparr>" "r = Inl e" by auto
    with entry sc Inl show ?thesis by simp
  next
    case (Inr infid)
    let ?v = "print (InfidelityOf expl m infid) (w\<lparr>rng := r1\<rparr>)"
    let ?acc = "infidelities @ [(m, infid)]"
    from Cons.prems(2) entry have "m \<notin> fst ` set infidelities" by auto
    then have upd: "AList.update m infid infidelities = ?acc" by (rule update_new_key)
    with Cons.prems(3) entry sc Inr
    have rest: "score_loop score test_set ptg expl evaluators ?acc ?v = (w', r)"
      by simp
    from Cons.prems(1) entry have d: "distinct (map fst evaluators)" by simp
    from Cons.prems(1,2) entry have disj: "fst ` set evaluators \<inter> fst ` set ?acc = {}"
      by (auto simp: image_iff)
    have v: "rng ?v = r1" "reported (stdout ?v) = reported (stdout w) @ [(expl, m, infid)]"
      by (simp_all add: print_def reported_append)
    from Cons.IH [OF d disj rest] show ?thesis
    proof
      assume "\<exists>e. r = Inl e
                \<and> infidelity_result score test_set ptg evaluators (rng ?v) = (rng w', Inl e)"
      with entry sc Inr v(1) show ?thesis by auto
    next
      assume "\<exists>result. r = Inr (?acc @ result)
            \<and> infidelity_result score test_set ptg evaluators (rng ?v) = (rng w', Inr result)
            \<and> reported (stdout w') = reported (stdout ?v) @ score_lines expl result"
      then obtain result where result: "r = Inr (?acc @ result)"
        "infidelity_result score test_set ptg evaluators (rng ?v) = (rng w', Inr result)"
        "reported (stdout w') = reported (stdout ?v) @ score_lines expl result"
        by blast
      have "r = Inr (infidelities @ (m, infid) # result)
            \<and> infidelity_result score test_set ptg (entry # evaluators) (rng w)
                = (rng w', Inr ((m, infid) # result))
            \<and> reported (stdout w') = reported (stdout w) @ score_lines expl ((m, infid) # result)"
        using result entry sc Inr v by (simp add: score_lines_def)
      then show ?thesis by blast
    qed
  qed
qed

lemma save_bar_chart_rng_stdout:
  assumes "save_bar_chart render expl arch w = (w', r)"
  shows "rng w' = rng w \<and> reported (stdout w') = reported (stdout w)"
  using save_bar_chart_cases [OF assms]
  by (auto simp: print_def reported_append)

lemma eval_loop_pure:
  assumes "\<forall>entry \<in> set evaluators_dict. distinct (map fst (snd entry))"
    and "eval_loop score render arch test_set ptg evaluators_dict w = (w', Inr ())"
  shows "\<exists>results. aggregate score test_set ptg evaluators_dict (rng w) = (rng w', Inr results)
           \<and> reported (stdout w') = reported (stdout w) @ all_score_lines results"
  using assms
proof (induction evaluators_dict arbitrary: w)
  case Nil
  then show ?case by (simp add: all_score_lines_def)
next
  case (Cons entry evaluators_dict)
  obtain expl evaluators where entry: "entry = (expl, evaluators)" by (cases entry)
  let ?w0 = "print (EvaluatingInfidelity expl) w"
  obtain w1 r1 where sl: "score_loop score test_set ptg expl evaluators [] ?w0 = (w1, r1)"
    by (cases "score_loop score test_set ptg expl evaluators [] ?w0")
  with Cons.prems(2) entry obtain infidelities where r1: "r1 = Inr infidelities"
    by (cases r1) auto
  let ?w1 = "w1\<lparr>fig := create_bar_chart expl arch infidelities (fig w1)\<rparr>"
  obtain w2 r2 where sb: "save_bar_chart render expl arch ?w1 = (w2, r2)"
    by (cases "save_bar_chart render expl arch ?w1")
  with Cons.prems(2) entry sl r1 have r2: "r2 = Inr ()"
    and rest: "eval_loop score render arch test_set ptg evaluators_dict w2 = (w', Inr ())"
    by (cases r2; simp)+
  from Cons.prems(1) entry have d: "distinct (map fst evaluators)" by simp
  from score_loop_pure [OF d _ sl] r1
  have one: "infidelity_result score test_set ptg evaluators (rng w) = (rng w1, Inr infidelities)"
    "reported (stdout w1) = reported (stdout w) @ score_lines expl infidelities"
    by (auto simp: print_def reported_append)
  from save_bar_chart_rng_stdout [OF sb]
  have w2: "rng w2 = rng w1" "reported (stdout w2) = reported (stdout w1)" by simp_all
  from Cons.prems(1) have "\<forall>entry \<in> set evaluators_dict. distinct (map fst (snd entry))"
    by simp
  from Cons.IH [OF this rest] obtain results where
    results: "aggregate score test_set ptg evaluators_dict (rng w2) = (rng w', Inr results)"
      "reported (stdout w') = reported (stdout w2) @ all_score_lines results"
    by blast
  have "aggregate score test_set ptg (entry # evaluators_dict) (rng w)
          = (rng w', Inr ((expl, infidelities) # results))
        \<and> reported (stdout w')
          = reported (stdout w) @ all_score_lines ((expl, infidelities) # results)"
    using entry one w2 results by (simp add: all_score_lines_def)
  then show ?case by blast
qed

lemma example_row_scores:
  "\<exists>v. score_loop example_score () 0.05 ''LIME'' example_row [] w
         = (v, Inr [(''base'', real (rng w)), (''pruned'', real (rng w + 1))])"
  by (simp add: example_row_def example_score_def print_def)

lemma example_eval_loop_returns:
  assumes "os_path_isdir (fsys w) ''results/figs''"
  shows "\<exists>w'. eval_loop example_score example_render None () 0.05 [(''LIME'', example_row)] w
               = (w', Inr ())"
proof -
  let ?w0 = "print (EvaluatingInfidelity ''LIME'') w"
  from example_row_scores [of ?w0] obtain v inf where
    sl: "score_loop example_score () 0.05 ''LIME'' example_row [] ?w0 = (v, Inr inf)"
    by blast
  let ?x = "v\<lparr>fig := create_bar_chart ''LIME'' None inf (fig v)\<rparr>"
  from score_loop_frame [OF sl] assms have dir: "os_path_isdir (fsys ?x) ''results/figs''"
    by (simp add: print_def)
  have drawn: "example_render (fig ?x) = Inr ()"
    by (simp add: example_render_def)
  have dirname: "os_path_dirname (unique_filename (fsys ?x) (save_path_of ''LIME'' None) ''.png'')
          = ''results/figs''"
    by (rule dirname_unique_filename) simp_all
  have nonempty: "''results/figs'' \<noteq> []" by simp
  from save_bar_chart_ok [where render = example_render and w = ?x, OF drawn dirname nonempty dir]
  obtain w' where sb: "save_bar_chart example_render ''LIME'' None ?x = (w', Inr ())"
    by blast
  have "eval_loop example_score example_render None () 0.05 [(''LIME'', example_row)] w
          = (w', Inr ())"
    by (simp only: eval_loop.simps sl sb prod.case sum.case)
  then show ?thesis by blast
qed

text \<open>
  C9. Take two runs with the same scorer, test set, \<open>ptg\<close> and evaluators (their
  variant names pairwise different in every row, as the keys of a dictionary are),
  started in two worlds that agree on the state of the random sampler and may differ
  in everything else (filesystem, figure, output so far, renderer, architecture
  label). In both, the inner loop (lines 38 to 43) ends with the result and the
  sampler state that \<open>infidelity_result\<close> computes from the sampler state alone: the
  mapping with one score per variant, in the row's order, or the first error. When
  both runs of the loop over all classes return, they end in the same sampler state
  and have reported the same scores, those of \<open>aggregate\<close>. (A run whose \<open>savefig\<close>
  raises ends at that chart and scores no later class.)
\<close>

theorem aggregation_deterministic:
  fixes w1 w2 :: "'r world"
  assumes "rng w1 = rng w2"
    and "distinct (map fst evaluators)"
    and "\<forall>entry \<in> set evaluators_dict. distinct (map fst (snd entry))"
  shows "(rng (fst (score_loop score test_set ptg expl evaluators [] w1)),
          snd (score_loop score test_set ptg expl evaluators [] w1))
           = infidelity_result score test_set ptg evaluators (rng w1)
     \<and> (rng (fst (score_loop score test_set ptg expl evaluators [] w2)),
          snd (score_loop score test_set ptg expl evaluators [] w2))
           = infidelity_result score test_set ptg evaluators (rng w1)
     \<and> (\<forall>w1' w2'.
           eval_loop score render1 arch1 test_set ptg evaluators_dict w1 = (w1', Inr ())
           \<and> eval_loop score render2 arch2 test_set ptg evaluators_dict w2 = (w2', Inr ())
           \<longrightarrow> (\<exists>results.
                  aggregate score test_set ptg evaluators_dict (rng w1) = (rng w1', Inr results)
                  \<and> rng w2' = rng w1'
                  \<and> reported (stdout w1') = reported (stdout w1) @ all_score_lines results
                  \<and> reported (stdout w2') = reported (stdout w2) @ all_score_lines results))"
proof (intro conjI allI impI)
  have inner: "(rng (fst (score_loop score test_set ptg expl evaluators [] w)),
                snd (score_loop score test_set ptg expl evaluators [] w))
                 = infidelity_result score test_set ptg evaluators (rng w)" for w :: "'r world"
  proof -
    obtain w' r where run: "score_loop score test_set ptg expl evaluators [] w = (w', r)"
      by (cases "score_loop score test_set ptg expl evaluators [] w")
    from score_loop_pure [OF assms(2) _ run] run show ?thesis by auto
  qed
  from inner [of w1]
  show "(rng (fst (score_loop score test_set ptg expl evaluators [] w1)),
          snd (score_loop score test_set ptg expl evaluators [] w1))
           = infidelity_result score test_set ptg evaluators (rng w1)" .
  from inner [of w2] assms(1)
  show "(rng (fst (score_loop score test_set ptg expl evaluators [] w2)),
          snd (score_loop score test_set ptg expl evaluators [] w2))
           = infidelity_result score test_set ptg evaluators (rng w1)" by simp
next
  fix w1' w2'
  assume runs: "eval_loop score render1 arch1 test_set ptg evaluators_dict w1 = (w1', Inr ())
           \<and> eval_loop score render2 arch2 test_set ptg evaluators_dict w2 = (w2', Inr ())"
  from eval_loop_pure [OF assms(3) conjunct1 [OF runs]] obtain results where
    a: "aggregate score test_set ptg evaluators_dict (rng w1) = (rng w1', Inr results)"
      "reported (stdout w1') = reported (stdout w1) @ all_score_lines results"
    by blast
  from eval_loop_pure [OF assms(3) conjunct2 [OF runs]] obtain results' where
    b: "aggregate score test_set ptg evaluators_dict (rng w2) = (rng w2', Inr results')"
      "reported (stdout w2') = reported (stdout w2) @ all_score_lines results'"
    by blast
  from a(1) b(1) assms(1) have "rng w2' = rng w1'" "results' = results" by simp_all
  with a b show "\<exists>results.
                  aggregate score test_set ptg evaluators_dict (rng w1) = (rng w1', Inr results)
                  \<and> rng w2' = rng w1'
                  \<and> reported (stdout w1') = reported (stdout w1) @ all_score_lines results
                  \<and> reported (stdout w2') = reported (stdout w2) @ all_score_lines results"
    by blast
qed

theorem aggregation_deterministic_witness:
  "rng (fresh_world example_fs)
     = rng ((fresh_world one_variant_fs)\<lparr>stdout := [LoadingModels ''elsewhere'']\<rparr>)
   \<and> distinct (map fst example_row)
   \<and> snd (score_loop example_score () 0.05 ''LIME'' example_row [] (fresh_world example_fs))
     = Inr [(''base'', 0), (''pruned'', 1)]
   \<and> snd (score_loop example_score () 0.05 ''LIME'' example_row []
              ((fresh_world one_variant_fs)\<lparr>stdout := [LoadingModels ''elsewhere'']\<rparr>))
     = Inr [(''base'', 0), (''pruned'', 1)]
   \<and> (\<exists>w1' w2'.
        eval_loop example_score example_render None () 0.05 [(''LIME'', example_row)]
          (fresh_world example_fs) = (w1', Inr ())
        \<and> eval_loop example_score example_render None () 0.05 [(''LIME'', example_row)]
            ((fresh_world one_variant_fs)\<lparr>stdout := [LoadingModels ''elsewhere'']\<rparr>)
          = (w2', Inr ())
        \<and> reported (stdout w1') = [(''LIME'', ''base'', 0), (''LIME'', ''pruned'', 1)]
        \<and> reported (stdout w2') = [(''LIME'', ''base'', 0), (''LIME'', ''pruned'', 1)])"
proof -
  define wa where "wa = fresh_world example_fs"
  define wb where
    "wb = (fresh_world one_variant_fs)\<lparr>stdout := [LoadingModels ''elsewhere'']\<rparr>"
  define m where "m = [(''LIME'', example_row)]"
  have same: "rng wa = rng wb"
    by (simp add: wa_def wb_def fresh_world_def)
  have names: "distinct (map fst example_row)"
    by (simp add: example_row_def)
  have rows: "\<forall>entry \<in> set m. distinct (map fst (snd entry))"
    using names by (simp add: m_def)
  have start: "rng wa = 0" "reported (stdout wa) = []" "reported (stdout wb) = []"
    by (simp_all add: wa_def wb_def fresh_world_def)
  have pure: "infidelity_result example_score () 0.05 example_row 0
                = (2, Inr [(''base'', 0), (''pruned'', 1)])"
    by (simp add: example_row_def example_score_def)
  then have all: "aggregate example_score () 0.05 m 0
                = (2, Inr [(''LIME'', [(''base'', 0), (''pruned'', 1)])])"
    by (simp add: m_def)
  note det = aggregation_deterministic
    [where ?w1.0 = wa and ?w2.0 = wb and evaluators = example_row and evaluators_dict = m
       and score = example_score and test_set = "()" and ptg = "0.05" and expl = "''LIME''"
       and ?render1.0 = example_render and ?arch1.0 = None
       and ?render2.0 = example_render and ?arch2.0 = None, OF same names rows]
  from det [THEN conjunct1] pure start(1)
  have inner1: "snd (score_loop example_score () 0.05 ''LIME'' example_row [] wa)
                 = Inr [(''base'', 0), (''pruned'', 1)]"
    by (metis snd_conv)
  from det [THEN conjunct2, THEN conjunct1] pure start(1)
  have inner2: "snd (score_loop example_score () 0.05 ''LIME'' example_row [] wb)
                 = Inr [(''base'', 0), (''pruned'', 1)]"
    by (metis snd_conv)
  have "os_path_isdir (fsys wa) ''results/figs''"
    by (simp add: wa_def fresh_world_def example_fs_def os_path_isdir_def)
  from example_eval_loop_returns [OF this] obtain w1' where
    r1: "eval_loop example_score example_render None () 0.05 m wa = (w1', Inr ())"
    unfolding m_def by blast
  have "os_path_isdir (fsys wb) ''results/figs''"
    by (simp add: wb_def fresh_world_def one_variant_fs_def os_path_isdir_def)
  from example_eval_loop_returns [OF this] obtain w2' where
    r2: "eval_loop example_score example_render None () 0.05 m wb = (w2', Inr ())"
    unfolding m_def by blast
  from det [THEN conjunct2, THEN conjunct2, rule_format, OF conjI [OF r1 r2]]
  obtain results where
    res: "aggregate example_score () 0.05 m (rng wa) = (rng w1', Inr results)"
    "reported (stdout w1') = reported (stdout wa) @ all_score_lines results"
    "reported (stdout w2') = reported (stdout wb) @ all_score_lines results"
    by blast
  from res(1) all start(1) have "results = [(''LIME'', [(''base'', 0), (''pruned'', 1)])]"
    by simp
  with res(2,3) start(2,3) have
    "reported (stdout w1') = [(''LIME'', ''base'', 0), (''LIME'', ''pruned'', 1)]"
    "reported (stdout w2') = [(''LIME'', ''base'', 0), (''LIME'', ''pruned'', 1)]"
    by (simp_all add: all_score_lines_def score_lines_def)
  with r1 r2 have "\<exists>w1' w2'.
        eval_loop example_score example_render None () 0.05 m wa = (w1', Inr ())
        \<and> eval_loop example_score example_render None () 0.05 m wb = (w2', Inr ())
        \<and> reported (stdout w1') = [(''LIME'', ''base'', 0), (''LIME'', ''pruned'', 1)]
        \<and> reported (stdout w2') = [(''LIME'', ''base'', 0), (''LIME'', ''pruned'', 1)]"
    by blast
  with same names inner1 inner2 show ?thesis
    unfolding wa_def wb_def m_def by blast
qed

section \<open>An empty model collection\<close>

lemma load_dir_fig_saved:
  "load_dir from_pretrained class_name path model_dir st w = (w1, r) \<Longrightarrow>
   fig w1 = fig w \<and> saved w1 = saved w"
  by (cases "has_entries (fsys w) (os_path_join path model_dir)")
     (auto simp: load_dir_skip print_def dest!: load_dir_entries)

lemma load_loop_fig_saved:
  "load_loop from_pretrained class_name path ds st w = (w', r) \<Longrightarrow>
   fig w' = fig w \<and> saved w' = saved w"
proof (induction ds arbitrary: st w)
  case Nil
  then show ?case by simp
next
  case (Cons d ds)
  obtain w1 r1 where step: "load_dir from_pretrained class_name path d st w = (w1, r1)"
    by (cases "load_dir from_pretrained class_name path d st w")
  from load_dir_fig_saved [OF step] have "fig w1 = fig w \<and> saved w1 = saved w" .
  with Cons step show ?case
    by (cases r1) auto
qed

lemma load_latest_checkpoints_frame:
  assumes "load_latest_checkpoints from_pretrained class_name path w = (w', r)"
  shows "fsys w' = fsys w \<and> fig w' = fig w \<and> saved w' = saved w"
proof (cases "os_path_isdir (fsys w) path")
  case False
  with assms show ?thesis by (simp add: load_latest_checkpoints_def)
next
  case True
  then obtain names where "os_listdir (fsys w) path = Inr names"
    using isdir_listdir by blast
  with True assms
  have "load_loop from_pretrained class_name path names ([], None) w = (w', r)"
    by (simp add: load_latest_checkpoints_def)
  with load_loop_fsys load_loop_fig_saved show ?thesis by blast
qed

lemma load_loop_nonempty:
  assumes "load_loop from_pretrained class_name path ds st w = (w', Inr st')"
    and "fst st \<noteq> []"
  shows "fst st' \<noteq> []"
  using assms
proof (induction ds arbitrary: st w)
  case Nil
  then show ?case by auto
next
  case (Cons d ds)
  obtain w1 r1 where step: "load_dir from_pretrained class_name path d st w = (w1, r1)"
    by (cases "load_dir from_pretrained class_name path d st w")
  with Cons.prems(1) obtain st1 where r1: "r1 = Inr st1"
    and rest: "load_loop from_pretrained class_name path ds st1 w1 = (w', Inr st')"
    by (cases r1) auto
  have "fst st1 \<noteq> []"
  proof (cases "has_entries (fsys w) (os_path_join path d)")
    case False
    with step r1 Cons.prems(2) show ?thesis by (simp add: load_dir_skip)
  next
    case True
    from load_dir_entries [OF True step [unfolded r1]] show ?thesis by auto
  qed
  with rest show ?case by (rule Cons.IH)
qed

lemma load_loop_empty_arch:
  assumes "load_loop from_pretrained class_name path ds st w = (w', Inr ([], arch'))"
  shows "arch' = snd st"
  using assms
proof (induction ds arbitrary: st w)
  case Nil
  then show ?case by auto
next
  case (Cons d ds)
  obtain w1 r1 where step: "load_dir from_pretrained class_name path d st w = (w1, r1)"
    by (cases "load_dir from_pretrained class_name path d st w")
  with Cons.prems obtain st1 where r1: "r1 = Inr st1"
    and rest: "load_loop from_pretrained class_name path ds st1 w1 = (w', Inr ([], arch'))"
    by (cases r1) auto
  show ?case
  proof (cases "has_entries (fsys w) (os_path_join path d)")
    case False
    with step r1 have "st1 = st" by (simp add: load_dir_skip)
    with Cons.IH [OF rest] show ?thesis by simp
  next
    case True
    from load_dir_entries [OF True step [unfolded r1]] have "fst st1 \<noteq> []" by auto
    from load_loop_nonempty [OF rest this] show ?thesis by simp
  qed
qed

lemma list_all2_pick:
  "list_all2 P xs ys \<Longrightarrow> x \<in> set xs \<Longrightarrow> \<exists>y \<in> set ys. P x y"
  by (induction rule: list_all2_induct) auto

lemma bars_create_bar_chart:
  "bars (create_bar_chart expl arch infidelities f)
     = bars f @ zip [0..<length infidelities] (map snd infidelities)"
  by (simp add: create_bar_chart_def plt_bar_def plt_xticks_def Let_def)

lemma title_create_bar_chart:
  "title (create_bar_chart expl arch infidelities f) = chart_title expl arch"
  by (simp add: create_bar_chart_def plt_bar_def plt_xticks_def Let_def)

lemma xticks_create_bar_chart:
  "xticks (create_bar_chart expl arch infidelities f)
     = zip [0..<length infidelities] (map fst infidelities)"
  by (simp add: create_bar_chart_def plt_bar_def plt_xticks_def Let_def)

lemma name_of_no_slash: "CHR ''/'' \<notin> set (name_of c)"
  by (cases c) simp_all

lemma eval_loop_no_models:
  assumes "\<forall>entry \<in> set evaluators_dict. snd entry = [] \<and> CHR ''/'' \<notin> set (fst entry)"
    and "CHR ''/'' \<notin> set (format_arch arch)"
    and "\<forall>f. bars f = [] \<longrightarrow> render f = Inr ()"
    and "bars (fig w) = []"
    and "os_path_isdir (fsys w) ''results/figs''"
  shows "\<exists>w' charts. eval_loop score render arch test_set ptg evaluators_dict w = (w', Inr ())
     \<and> saved w' = saved w @ charts
     \<and> list_all2 (\<lambda>entry chart.
          (\<exists>n. fst chart = candidate (save_path_of (fst entry) arch) ''.png'' n)
          \<and> bars (snd chart) = [] \<and> title (snd chart) = chart_title (fst entry) arch)
        evaluators_dict charts
     \<and> distinct (map fst charts)
     \<and> (\<forall>chart \<in> set charts.
          os_path_isfile (fsys w') (fst chart) \<and> \<not> os_path_exists (fsys w) (fst chart))
     \<and> (\<forall>q. os_path_isfile (fsys w) q \<longrightarrow> os_path_isfile (fsys w') q)
     \<and> (\<forall>q. os_path_exists (fsys w) q \<longrightarrow> os_path_exists (fsys w') q)"
  using assms(1,4,5)
proof (induction evaluators_dict arbitrary: w)
  case Nil
  then show ?case by simp
next
  case (Cons entry evaluators_dict)
  from Cons.prems(1) obtain expl where entry: "entry = (expl, [])"
    and expl: "CHR ''/'' \<notin> set expl"
    by (cases entry) auto
  define x where
    "x = (print (EvaluatingInfidelity expl) w)
           \<lparr>fig := create_bar_chart expl arch [] (fig (print (EvaluatingInfidelity expl) w))\<rparr>"
  define p where "p = unique_filename (fsys x) (save_path_of expl arch) ''.png''"
  have x: "fsys x = fsys w" "saved x = saved w" "bars (fig x) = []"
    "title (fig x) = chart_title expl arch"
    using Cons.prems(2)
    by (simp_all add: x_def bars_create_bar_chart title_create_bar_chart print_def)
  from x(3) assms(3) have drawn: "render (fig x) = Inr ()" by simp
  have dirname: "os_path_dirname (unique_filename (fsys x) (save_path_of expl arch) ''.png'')
                   = ''results/figs''"
    by (rule dirname_unique_filename [OF expl assms(2)])
  have nonempty: "''results/figs'' \<noteq> []" by simp
  from Cons.prems(3) x(1) have dir: "os_path_isdir (fsys x) ''results/figs''"
    by simp
  from save_bar_chart_ok [where render = render and w = x, OF drawn dirname nonempty dir]
  obtain w2 where w2: "save_bar_chart render expl arch x = (w2, Inr ())"
    "saved w2 = saved x @ [(p, fig x)]" "fig w2 = fig x"
    "os_path_isdir (fsys w2) ''results/figs''"
    unfolding p_def by blast
  from save_bar_chart_writes [OF w2(1)] x(1)
  have wr: "os_path_isfile (fsys w2) p" "\<not> os_path_exists (fsys w) p"
    "\<forall>q. os_path_isfile (fsys w) q \<longrightarrow> os_path_isfile (fsys w2) q"
    "\<forall>q. os_path_exists (fsys w) q \<longrightarrow> os_path_exists (fsys w2) q"
    unfolding p_def by simp_all
  have "eval_loop score render arch test_set ptg ((expl, []) # evaluators_dict) w
                = eval_loop score render arch test_set ptg evaluators_dict w2"
    using w2(1) unfolding x_def
    by (simp only: eval_loop.simps score_loop.simps prod.case sum.case)
  then have step: "eval_loop score render arch test_set ptg (entry # evaluators_dict) w
                = eval_loop score render arch test_set ptg evaluators_dict w2"
    by (simp only: entry)
  from unique_filename_candidate [of "fsys x" "save_path_of expl arch" "''.png''"]
  obtain n where n: "p = candidate (save_path_of expl arch) ''.png'' n"
    unfolding p_def by blast
  from Cons.prems(1)
  have "\<forall>entry \<in> set evaluators_dict. snd entry = [] \<and> CHR ''/'' \<notin> set (fst entry)" by simp
  moreover from w2(3) x(3) have "bars (fig w2) = []" by simp
  ultimately obtain w' charts where
    rest: "eval_loop score render arch test_set ptg evaluators_dict w2 = (w', Inr ())"
      "saved w' = saved w2 @ charts"
      "list_all2 (\<lambda>entry chart.
          (\<exists>n. fst chart = candidate (save_path_of (fst entry) arch) ''.png'' n)
          \<and> bars (snd chart) = [] \<and> title (snd chart) = chart_title (fst entry) arch)
        evaluators_dict charts"
      "distinct (map fst charts)"
      "\<forall>chart \<in> set charts.
          os_path_isfile (fsys w') (fst chart) \<and> \<not> os_path_exists (fsys w2) (fst chart)"
      "\<forall>q. os_path_isfile (fsys w2) q \<longrightarrow> os_path_isfile (fsys w') q"
      "\<forall>q. os_path_exists (fsys w2) q \<longrightarrow> os_path_exists (fsys w') q"
    using Cons.IH [of w2] w2(4) by blast
  have run: "eval_loop score render arch test_set ptg (entry # evaluators_dict) w = (w', Inr ())"
    using step rest(1) by simp
  have log: "saved w' = saved w @ ((p, fig x) # charts)"
    using rest(2) w2(2) x(2) by simp
  have each: "list_all2 (\<lambda>entry chart.
          (\<exists>n. fst chart = candidate (save_path_of (fst entry) arch) ''.png'' n)
          \<and> bars (snd chart) = [] \<and> title (snd chart) = chart_title (fst entry) arch)
        (entry # evaluators_dict) ((p, fig x) # charts)"
    using rest(3) n x(3,4) entry by auto
  have "p \<notin> fst ` set charts"
    using rest(5) wr(1) isfile_exists by force
  with rest(4) have names: "distinct (map fst ((p, fig x) # charts))"
    by simp
  have files: "\<forall>chart \<in> set ((p, fig x) # charts).
          os_path_isfile (fsys w') (fst chart) \<and> \<not> os_path_exists (fsys w) (fst chart)"
    using rest(5,6) wr by auto
  have kept: "\<forall>q. os_path_isfile (fsys w) q \<longrightarrow> os_path_isfile (fsys w') q"
    "\<forall>q. os_path_exists (fsys w) q \<longrightarrow> os_path_exists (fsys w') q"
    using rest(6,7) wr(3,4) by simp_all
  from run log each names files kept show ?case
    by blast
qed

lemma example_empty_discovery:
  assumes "fsys w = empty_ckpts_fs \<or> fsys w = empty_ckpts_with_figs_fs"
  shows "load_latest_checkpoints example_loader example_class_name ''./ckpts''
           (print (LoadingModels ''./ckpts'') w)
         = (print (LoadingModels ''./ckpts'') w, Inr ([], None))"
  using assms
  by (auto simp: load_latest_checkpoints_def load_dir_def empty_ckpts_fs_def
        empty_ckpts_with_figs_fs_def os_path_isdir_def os_listdir_def os_path_join_def
        sorted_by_getmtime_def sorted_reverse_def print_def Let_def)

lemma eval_models_one_class_no_models:
  fixes from_pretrained :: "string \<Rightarrow> error + 'm"
  assumes "load_latest_checkpoints from_pretrained class_name path (print (LoadingModels path) w)
             = (w1, Inr ([], arch))"
    and "x = (print (EvaluatingInfidelity (name_of c)) (print (CreatingEvaluators arch) w1))
               \<lparr>fig := create_bar_chart (name_of c) arch []
                        (fig (print (EvaluatingInfidelity (name_of c))
                                (print (CreatingEvaluators arch) w1)))\<rparr>"
    and "save_bar_chart render (name_of c) arch x = (w2, r)"
  shows "eval_models from_pretrained class_name score render path tok [c] test_set dev ptg w
           = (w2, r)"
proof -
  have build: "build_evaluators [c] ([] :: (string \<times> 'm) list) tok dev []
                 (print (CreatingEvaluators arch) w1)
               = (print (CreatingEvaluators arch) w1, [(name_of c, [])])"
    by simp
  show ?thesis
  proof (cases r)
    case (Inl e)
    from assms(3) show ?thesis
      unfolding Inl assms(2)
      by (simp only: eval_models_def assms(1) build eval_loop.simps score_loop.simps
            prod.case sum.case)
  next
    case (Inr u)
    then have r: "r = Inr ()" by simp
    from assms(3) show ?thesis
      unfolding r assms(2)
      by (simp only: eval_models_def assms(1) build eval_loop.simps score_loop.simps
            prod.case sum.case)
  qed
qed

text \<open>
  C10, where the claim fails. With an empty collection and no directory
  \<open>results/figs\<close>, which \<open>main.py\<close> never creates, \<open>savefig\<close> raises for the first
  chart: \<open>eval_models\<close> ends with \<open>FileNotFoundError\<close> and no chart is saved. With
  \<open>results/figs\<close> in place and a current figure that already holds a bar when
  \<open>eval_models\<close> is called, the run returns, and the chart it saves has that bar.
\<close>

theorem eval_models_no_models_counterexample:
  "snd (load_latest_checkpoints example_loader example_class_name ''./ckpts''
          (print (LoadingModels ''./ckpts'') (fresh_world empty_ckpts_fs)))
     = Inr ([], None)
   \<and> snd (eval_models example_loader example_class_name example_score example_render
            ''./ckpts'' () [SHAP] () () 0.05 (fresh_world empty_ckpts_fs))
     = Inl (FileNotFoundError ''results/figs/SHAP_topk_None.png'')
   \<and> saved (fst (eval_models example_loader example_class_name example_score example_render
            ''./ckpts'' () [SHAP] () () 0.05 (fresh_world empty_ckpts_fs))) = []
   \<and> snd (load_latest_checkpoints example_loader example_class_name ''./ckpts''
          (print (LoadingModels ''./ckpts'') stale_figure_world))
     = Inr ([], None)
   \<and> snd (eval_models example_loader example_class_name example_score example_render
            ''./ckpts'' () [SHAP] () () 0.05 stale_figure_world)
     = Inr ()
   \<and> map bars (map snd
       (saved (fst (eval_models example_loader example_class_name example_score example_render
            ''./ckpts'' () [SHAP] () () 0.05 stale_figure_world))))
     = [[(0, 7)]]"
proof -
  define a where "a = fresh_world empty_ckpts_fs"
  define xa where
    "xa = (print (EvaluatingInfidelity (name_of SHAP))
             (print (CreatingEvaluators None) (print (LoadingModels ''./ckpts'') a)))
            \<lparr>fig := create_bar_chart (name_of SHAP) None []
                     (fig (print (EvaluatingInfidelity (name_of SHAP))
                            (print (CreatingEvaluators None)
                               (print (LoadingModels ''./ckpts'') a))))\<rparr>"
  define xb where
    "xb = (print (EvaluatingInfidelity (name_of SHAP))
             (print (CreatingEvaluators None)
                (print (LoadingModels ''./ckpts'') stale_figure_world)))
            \<lparr>fig := create_bar_chart (name_of SHAP) None []
                     (fig (print (EvaluatingInfidelity (name_of SHAP))
                            (print (CreatingEvaluators None)
                               (print (LoadingModels ''./ckpts'') stale_figure_world))))\<rparr>"
  have la: "load_latest_checkpoints example_loader example_class_name ''./ckpts''
              (print (LoadingModels ''./ckpts'') a)
            = (print (LoadingModels ''./ckpts'') a, Inr ([], None))"
    by (rule example_empty_discovery) (simp add: a_def fresh_world_def)
  have lb: "load_latest_checkpoints example_loader example_class_name ''./ckpts''
              (print (LoadingModels ''./ckpts'') stale_figure_world)
            = (print (LoadingModels ''./ckpts'') stale_figure_world, Inr ([], None))"
    by (rule example_empty_discovery) (simp add: stale_figure_world_def fresh_world_def)
  have fa: "fsys xa = empty_ckpts_fs" "saved xa = []"
    by (simp_all add: xa_def a_def print_def fresh_world_def)
  have fb: "fsys xb = empty_ckpts_with_figs_fs" "saved xb = []" "bars (fig xb) = [(0, 7)]"
    by (simp_all add: xb_def stale_figure_world_def print_def fresh_world_def
          bars_create_bar_chart empty_figure_def)
  have pa: "unique_filename (fsys xa) (save_path_of ''SHAP'' None) ''.png''
              = ''results/figs/SHAP_topk_None.png''"
    unfolding fa
    by (simp add: unique_filename_def unique_filename_loop.simps os_path_exists_def
          save_path_of_def empty_ckpts_fs_def)
  have da: "os_path_dirname (unique_filename (fsys xa) (save_path_of ''SHAP'' None) ''.png'')
              = ''results/figs''"
    by (rule dirname_unique_filename) simp_all
  have db: "os_path_dirname (unique_filename (fsys xb) (save_path_of ''SHAP'' None) ''.png'')
              = ''results/figs''"
    by (rule dirname_unique_filename) simp_all
  have nonempty: "''results/figs'' \<noteq> []" by simp
  have drawn: "example_render (fig xa) = Inr ()" "example_render (fig xb) = Inr ()"
    by (simp_all add: example_render_def)
  have "\<not> os_path_exists (fsys xa) ''results/figs''"
    unfolding fa by (simp add: os_path_exists_def empty_ckpts_fs_def)
  from save_bar_chart_no_dir [where render = example_render and w = xa, OF drawn(1) da nonempty this] pa
  have sa: "save_bar_chart example_render (name_of SHAP) None xa
              = (xa, Inl (FileNotFoundError ''results/figs/SHAP_topk_None.png''))"
    by simp
  have "os_path_isdir (fsys xb) ''results/figs''"
    unfolding fb by (simp add: os_path_isdir_def empty_ckpts_with_figs_fs_def)
  from save_bar_chart_ok [where render = example_render and w = xb, OF drawn(2) db nonempty this]
  obtain w' where sb: "save_bar_chart example_render ''SHAP'' None xb = (w', Inr ())"
    "saved w' = saved xb
       @ [(unique_filename (fsys xb) (save_path_of ''SHAP'' None) ''.png'', fig xb)]"
    by blast
  from sb(1) have sb': "save_bar_chart example_render (name_of SHAP) None xb = (w', Inr ())"
    by simp
  have ra: "eval_models example_loader example_class_name example_score example_render
              ''./ckpts'' () [SHAP] () () 0.05 a
            = (xa, Inl (FileNotFoundError ''results/figs/SHAP_topk_None.png''))"
    by (rule eval_models_one_class_no_models [OF la xa_def sa])
  have rb: "eval_models example_loader example_class_name example_score example_render
              ''./ckpts'' () [SHAP] () () 0.05 stale_figure_world = (w', Inr ())"
    by (rule eval_models_one_class_no_models [OF lb xb_def sb'])
  from sb(2) fb have charts: "map bars (map snd (saved w')) = [[(0, 7)]]"
    by simp
  from la lb ra rb fa(2) charts show ?thesis
    unfolding a_def by simp
qed

text \<open>
  C10, as amended. When discovery returns an empty collection, \<open>results/figs\<close> is a
  directory, the renderer draws every figure that has no bars, and the current figure
  holds no bars when \<open>eval_models\<close> is called, then \<open>arch\<close> is \<open>None\<close> and \<open>eval_models\<close>
  returns normally. It saves one chart per requested class, each in a file of its
  own that did not exist before: the chart has no bars, carries that class in its
  title, and its file is one of the names \<open>results/figs/<class>_topk_None.png\<close>,
  \<open>results/figs/<class>_topk_None_1.png\<close>, and so on.
\<close>

theorem eval_models_no_models:
  fixes from_pretrained :: "string \<Rightarrow> error + 'm"
  assumes "load_latest_checkpoints from_pretrained class_name path (print (LoadingModels path) w)
             = (w1, Inr ([], arch))"
    and "os_path_isdir (fsys w) ''results/figs''"
    and "\<forall>f. bars f = [] \<longrightarrow> render f = Inr ()"
    and "bars (fig w) = []"
  shows "arch = None
     \<and> (\<exists>w' charts.
          eval_models from_pretrained class_name score render path tok explainers test_set dev
            ptg w = (w', Inr ())
          \<and> saved w' = saved w @ charts
          \<and> length charts = card (set explainers)
          \<and> distinct (map fst charts)
          \<and> (\<forall>c \<in> set explainers. \<exists>n f.
                (candidate (''results/figs/'' @ name_of c @ ''_topk_None'') ''.png'' n, f)
                  \<in> set charts
                \<and> bars f = [] \<and> title f = chart_title (name_of c) None)
          \<and> (\<forall>chart \<in> set charts.
                bars (snd chart) = []
                \<and> os_path_isfile (fsys w') (fst chart)
                \<and> \<not> os_path_exists (fsys w) (fst chart)))"
proof -
  have arch: "arch = None"
  proof -
    from assms(1) obtain names where
      "load_loop from_pretrained class_name path names ([], None)
         (print (LoadingModels path) w) = (w1, Inr ([], arch))"
      by (auto simp: load_latest_checkpoints_def split: if_splits sum.splits)
    from load_loop_empty_arch [OF this] show ?thesis by simp
  qed
  from load_latest_checkpoints_frame [OF assms(1)]
  have w1: "fig w1 = fig w" "saved w1 = saved w" "fsys w1 = fsys w"
    by (simp_all add: print_def)
  obtain w2 evaluators_dict where
    build: "build_evaluators explainers ([] :: (string \<times> 'm) list) tok dev []
              (print (CreatingEvaluators arch) w1) = (w2, evaluators_dict)"
    by (cases "build_evaluators explainers ([] :: (string \<times> 'm) list) tok dev []
                 (print (CreatingEvaluators arch) w1)")
  from build_evaluators_invariant [OF _ build, of 0]
  have keys: "distinct (map fst evaluators_dict)"
    and rows: "\<forall>(k, row) \<in> set evaluators_dict.
                 \<exists>c. k = name_of c \<and> list_all2 (bound_to c tok dev) [] row"
    and dom: "fst ` set evaluators_dict = name_of ` set explainers"
    and w2: "w2 = (print (CreatingEvaluators arch) w1)\<lparr>next_id := next_id w2\<rparr>"
    by (simp_all add: object_ids_Nil)
  from rows have empty: "\<forall>entry \<in> set evaluators_dict.
                           snd entry = [] \<and> CHR ''/'' \<notin> set (fst entry)"
    using name_of_no_slash by fastforce
  from arg_cong [OF w2, of fig] w1 have fig2: "fig w2 = fig w"
    by (simp add: print_def)
  from arg_cong [OF w2, of saved] w1 have saved2: "saved w2 = saved w"
    by (simp add: print_def)
  from arg_cong [OF w2, of fsys] w1 have fsys2: "fsys w2 = fsys w"
    by (simp add: print_def)
  from assms(4) fig2 have bars2: "bars (fig w2) = []" by simp
  from assms(2) fsys2 have dir2: "os_path_isdir (fsys w2) ''results/figs''" by simp
  have none: "CHR ''/'' \<notin> set (format_arch arch)"
    by (simp add: arch)
  from eval_loop_no_models [OF empty none assms(3) bars2 dir2, of score test_set ptg]
  obtain w' charts where
    run: "eval_loop score render arch test_set ptg evaluators_dict w2 = (w', Inr ())"
    and log: "saved w' = saved w2 @ charts"
    and each: "list_all2 (\<lambda>entry chart.
          (\<exists>n. fst chart = candidate (save_path_of (fst entry) arch) ''.png'' n)
          \<and> bars (snd chart) = [] \<and> title (snd chart) = chart_title (fst entry) arch)
        evaluators_dict charts"
    and names: "distinct (map fst charts)"
    and files: "\<forall>chart \<in> set charts.
          os_path_isfile (fsys w') (fst chart) \<and> \<not> os_path_exists (fsys w2) (fst chart)"
    by blast
  from assms(1) build run
  have result: "eval_models from_pretrained class_name score render path tok explainers test_set
                  dev ptg w = (w', Inr ())"
    by (simp add: eval_models_def)
  have count: "length charts = card (set explainers)"
  proof -
    from each have "length charts = length evaluators_dict"
      by (simp add: list_all2_lengthD)
    also have "\<dots> = card (set (map fst evaluators_dict))"
      using distinct_card [OF keys] by simp
    also have "\<dots> = card (name_of ` set explainers)"
      using dom by simp
    also have "\<dots> = card (set explainers)"
      by (rule card_image) (auto intro: inj_onI name_of_inject)
    finally show ?thesis .
  qed
  have per_class: "\<forall>c \<in> set explainers. \<exists>n f.
      (candidate (''results/figs/'' @ name_of c @ ''_topk_None'') ''.png'' n, f) \<in> set charts
      \<and> bars f = [] \<and> title f = chart_title (name_of c) None"
  proof
    fix c assume "c \<in> set explainers"
    with dom obtain entry where entry: "entry \<in> set evaluators_dict" "fst entry = name_of c"
      by force
    from list_all2_pick [OF each entry(1)] entry(2) arch
    obtain chart n where chart: "chart \<in> set charts"
      "fst chart = candidate (save_path_of (name_of c) None) ''.png'' n"
      "bars (snd chart) = []" "title (snd chart) = chart_title (name_of c) None"
      by auto
    have "save_path_of (name_of c) None = ''results/figs/'' @ name_of c @ ''_topk_None''"
      by (simp add: save_path_of_def)
    with chart(2) have "chart
        = (candidate (''results/figs/'' @ name_of c @ ''_topk_None'') ''.png'' n, snd chart)"
      by (metis prod.collapse)
    with chart(1,3,4) show "\<exists>n f.
      (candidate (''results/figs/'' @ name_of c @ ''_topk_None'') ''.png'' n, f) \<in> set charts
      \<and> bars f = [] \<and> title f = chart_title (name_of c) None"
      by metis
  qed
  have no_bars: "bars (snd chart) = []" if "chart \<in> set charts" for chart
  proof -
    from each have "list_all2 (\<lambda>chart entry. bars (snd chart) = []) charts evaluators_dict"
      by (auto simp: list_all2_conv_all_nth)
    from list_all2_pick [OF this that] show ?thesis by blast
  qed
  with files fsys2 have all_files: "\<forall>chart \<in> set charts.
                bars (snd chart) = []
                \<and> os_path_isfile (fsys w') (fst chart)
                \<and> \<not> os_path_exists (fsys w) (fst chart)"
    by auto
  from log saved2 have log': "saved w' = saved w @ charts" by simp
  from result log' count names per_class all_files
  have "\<exists>w' charts.
          eval_models from_pretrained class_name score render path tok explainers test_set dev
            ptg w = (w', Inr ())
          \<and> saved w' = saved w @ charts
          \<and> length charts = card (set explainers)
          \<and> distinct (map fst charts)
          \<and> (\<forall>c \<in> set explainers. \<exists>n f.
                (candidate (''results/figs/'' @ name_of c @ ''_topk_None'') ''.png'' n, f)
                  \<in> set charts
                \<and> bars f = [] \<and> title f = chart_title (name_of c) None)
          \<and> (\<forall>chart \<in> set charts.
                bars (snd chart) = []
                \<and> os_path_isfile (fsys w') (fst chart)
                \<and> \<not> os_path_exists (fsys w) (fst chart))"
    by blast
  with arch show ?thesis by (rule conjI)
qed

theorem eval_models_no_models_witness:
  "snd (load_latest_checkpoints example_loader example_class_name ''./ckpts''
          (print (LoadingModels ''./ckpts'') (fresh_world empty_ckpts_with_figs_fs)))
     = Inr ([], None)
   \<and> os_path_isdir (fsys (fresh_world empty_ckpts_with_figs_fs)) ''results/figs''
   \<and> (\<forall>f. example_render f = Inr ())
   \<and> bars (fig (fresh_world empty_ckpts_with_figs_fs)) = []
   \<and> (\<exists>w' n f.
         eval_models example_loader example_class_name example_score example_render
           ''./ckpts'' () [SHAP] () () 0.05 (fresh_world empty_ckpts_with_figs_fs)
           = (w', Inr ())
         \<and> saved w' = [(candidate ''results/figs/SHAP_topk_None'' ''.png'' n, f)]
         \<and> bars f = []
         \<and> os_path_isfile (fsys w') (candidate ''results/figs/SHAP_topk_None'' ''.png'' n))"
proof -
  define w where "w = fresh_world empty_ckpts_with_figs_fs"
  have h1: "load_latest_checkpoints example_loader example_class_name ''./ckpts''
              (print (LoadingModels ''./ckpts'') w)
            = (print (LoadingModels ''./ckpts'') w, Inr ([], None))"
    by (rule example_empty_discovery) (simp add: w_def fresh_world_def)
  have h2: "os_path_isdir (fsys w) ''results/figs''"
    by (simp add: w_def fresh_world_def empty_ckpts_with_figs_fs_def os_path_isdir_def)
  have h3: "\<forall>f. bars f = [] \<longrightarrow> example_render f = Inr ()"
    by (simp add: example_render_def)
  have h4: "bars (fig w) = []" and h5: "saved w = []"
    by (simp_all add: w_def fresh_world_def empty_figure_def)
  from eval_models_no_models
    [where score = example_score and tok = "()" and explainers = "[SHAP]"
       and test_set = "()" and dev = "()" and ptg = "0.05", OF h1 h2 h3 h4]
  obtain w' charts where run:
    "eval_models example_loader example_class_name example_score example_render
       ''./ckpts'' () [SHAP] () () 0.05 w = (w', Inr ())"
    and log: "saved w' = saved w @ charts"
    and count: "length charts = card (set [SHAP])"
    and each: "\<forall>c \<in> set [SHAP]. \<exists>n f.
        (candidate (''results/figs/'' @ name_of c @ ''_topk_None'') ''.png'' n, f) \<in> set charts
        \<and> bars f = [] \<and> title f = chart_title (name_of c) None"
    and files: "\<forall>chart \<in> set charts.
                bars (snd chart) = []
                \<and> os_path_isfile (fsys w') (fst chart)
                \<and> \<not> os_path_exists (fsys w) (fst chart)"
    by blast
  from count obtain chart where one: "charts = [chart]"
    by (cases charts) simp_all
  from each one obtain n f where
    chart: "chart = (candidate ''results/figs/SHAP_topk_None'' ''.png'' n, f)" "bars f = []"
    by auto
  from files one chart(1)
  have "os_path_isfile (fsys w') (candidate ''results/figs/SHAP_topk_None'' ''.png'' n)"
    by simp
  with run log one chart h5 have "\<exists>w' n f.
         eval_models example_loader example_class_name example_score example_render
           ''./ckpts'' () [SHAP] () () 0.05 w = (w', Inr ())
         \<and> saved w' = [(candidate ''results/figs/SHAP_topk_None'' ''.png'' n, f)]
         \<and> bars f = []
         \<and> os_path_isfile (fsys w') (candidate ''results/figs/SHAP_topk_None'' ''.png'' n)"
    by auto
  moreover have "\<forall>f. example_render f = Inr ()"
    by (simp add: example_render_def)
  moreover from h1 have "snd (load_latest_checkpoints example_loader example_class_name
      ''./ckpts'' (print (LoadingModels ''./ckpts'') w)) = Inr ([], None)"
    by simp
  ultimately show ?thesis
    using h2 h4 unfolding w_def by blast
qed

section \<open>The chart of a later explainer class\<close>

text \<open>
  C6, at a run with two explainer classes. One variant \<open>base\<close>, explainer classes
  SHAP and LIME, scores 1 and 2, an empty directory \<open>results/figs\<close> and a renderer
  that draws every figure. Nothing in lines 36 to 64 opens or clears a figure, so the
  bars of the first class stay on the axes: the first saved chart has the one bar of
  SHAP, the second (titled for LIME, with the one tick \<open>base\<close>) has two bars, SHAP's
  and LIME's, though LIME's scores cover one variant.
\<close>

theorem eval_models_second_chart_keeps_bars:
  "\<exists>w' p1 f1 p2 f2.
     eval_models example_loader example_class_name steady_score example_render ''./ckpts'' ()
       [SHAP, LIME] () () 0.05 (fresh_world one_variant_fs) = (w', Inr ())
     \<and> saved w' = [(p1, f1), (p2, f2)]
     \<and> bars f1 = [(0, 1)]
     \<and> bars f2 = [(0, 1), (0, 2)]
     \<and> xticks f2 = [(0, ''base'')]
     \<and> title f2 = ''Infidelity of LIME Explanations for Differently Pruned Versions of Bert''"
proof -
  let ?w = "fresh_world one_variant_fs"
  define w1 where
    "w1 = ?w\<lparr>stdout := [LoadingModels ''./ckpts'', Loaded ''./ckpts/base'' ''./ckpts/base/ckpt''],
               loads := [''./ckpts/base/ckpt'']\<rparr>"
  define evS :: "(string, unit, unit) evaluator_obj" where
    "evS = \<lparr>evaluator_id = 1,
            explainer = \<lparr>explainer_id = 0, explainer_class = SHAP,
                         model = ''./ckpts/base/ckpt'', tokenizer = (), device = ()\<rparr>\<rparr>"
  define evL :: "(string, unit, unit) evaluator_obj" where
    "evL = \<lparr>evaluator_id = 3,
            explainer = \<lparr>explainer_id = 2, explainer_class = LIME,
                         model = ''./ckpts/base/ckpt'', tokenizer = (), device = ()\<rparr>\<rparr>"
  define w2 where
    "w2 = w1\<lparr>next_id := 4, stdout := stdout w1 @ [CreatingEvaluators (Some ''Bert'')]\<rparr>"
  have h1: "load_latest_checkpoints example_loader example_class_name ''./ckpts''
              (print (LoadingModels ''./ckpts'') ?w)
            = (w1, Inr ([(''base'', ''./ckpts/base/ckpt'')], Some ''Bert''))"
    unfolding w1_def
    by (simp add: load_latest_checkpoints_def load_dir_def fresh_world_def one_variant_fs_def
          os_path_isdir_def os_listdir_def os_path_join_def sorted_by_getmtime_def
          sorted_reverse_def os_path_getmtime_def example_loader_def example_class_name_def
          print_def Let_def)
  have h2: "build_evaluators [SHAP, LIME] [(''base'', ''./ckpts/base/ckpt'')] () () []
              (print (CreatingEvaluators (Some ''Bert'')) w1)
            = (w2, [(''SHAP'', [(''base'', evS)]), (''LIME'', [(''base'', evL)])])"
    by (simp add: w2_def w1_def evS_def evL_def new_explainer_def new_evaluator_def
          print_def fresh_world_def)
  have start: "rng w2 = 0" "bars (fig w2) = []" "saved w2 = []"
    "os_path_isdir (fsys w2) ''results/figs''"
    by (simp_all add: w2_def w1_def fresh_world_def empty_figure_def one_variant_fs_def
          os_path_isdir_def)
  have nonempty: "''results/figs'' \<noteq> []" by simp
  define v1 where
    "v1 = print (InfidelityOf ''SHAP'' ''base'' 1)
            ((print (EvaluatingInfidelity ''SHAP'') w2)\<lparr>rng := 1\<rparr>)"
  have s1: "score_loop steady_score () 0.05 ''SHAP'' [(''base'', evS)] []
              (print (EvaluatingInfidelity ''SHAP'') w2) = (v1, Inr [(''base'', 1)])"
    using start(1) by (simp add: v1_def steady_score_def print_def)
  have v1: "rng v1 = 1" "fig v1 = fig w2" "saved v1 = []" "fsys v1 = fsys w2"
    by (simp_all add: v1_def print_def start)
  let ?x1 = "v1\<lparr>fig := create_bar_chart ''SHAP'' (Some ''Bert'') [(''base'', 1)] (fig v1)\<rparr>"
  have x1: "rng ?x1 = 1" "saved ?x1 = []" "bars (fig ?x1) = [(0, 1)]"
    "os_path_isdir (fsys ?x1) ''results/figs''"
    by (simp_all add: v1 bars_create_bar_chart start)
  have drawn1: "example_render (fig ?x1) = Inr ()"
    by (simp add: example_render_def)
  have d1: "os_path_dirname
              (unique_filename (fsys ?x1) (save_path_of ''SHAP'' (Some ''Bert'')) ''.png'')
            = ''results/figs''"
    by (rule dirname_unique_filename) simp_all
  from save_bar_chart_ok [where render = example_render and w = ?x1, OF drawn1 d1 nonempty x1(4)]
  obtain u1 where u1: "save_bar_chart example_render ''SHAP'' (Some ''Bert'') ?x1 = (u1, Inr ())"
    "saved u1 = saved ?x1
       @ [(unique_filename (fsys ?x1) (save_path_of ''SHAP'' (Some ''Bert'')) ''.png'', fig ?x1)]"
    "fig u1 = fig ?x1" "rng u1 = rng ?x1" "os_path_isdir (fsys u1) ''results/figs''"
    by blast
  define v2 where
    "v2 = print (InfidelityOf ''LIME'' ''base'' 2)
            ((print (EvaluatingInfidelity ''LIME'') u1)\<lparr>rng := 2\<rparr>)"
  from u1(4) x1(1) have "rng u1 = 1" by simp
  then have s2: "score_loop steady_score () 0.05 ''LIME'' [(''base'', evL)] []
              (print (EvaluatingInfidelity ''LIME'') u1) = (v2, Inr [(''base'', 2)])"
    by (simp add: v2_def steady_score_def print_def)
  have v2: "fig v2 = fig u1" "saved v2 = saved u1" "fsys v2 = fsys u1"
    by (simp_all add: v2_def print_def)
  let ?x2 = "v2\<lparr>fig := create_bar_chart ''LIME'' (Some ''Bert'') [(''base'', 2)] (fig v2)\<rparr>"
  from u1(3) x1(3) have "bars (fig u1) = [(0, 1)]" by simp
  then have x2: "bars (fig ?x2) = [(0, 1), (0, 2)]" "xticks (fig ?x2) = [(0, ''base'')]"
    "title (fig ?x2) = chart_title ''LIME'' (Some ''Bert'')"
    by (simp_all add: v2 bars_create_bar_chart xticks_create_bar_chart title_create_bar_chart)
  from u1(5) have dir2: "os_path_isdir (fsys ?x2) ''results/figs''"
    by (simp add: v2)
  have drawn2: "example_render (fig ?x2) = Inr ()"
    by (simp add: example_render_def)
  have d2: "os_path_dirname
              (unique_filename (fsys ?x2) (save_path_of ''LIME'' (Some ''Bert'')) ''.png'')
            = ''results/figs''"
    by (rule dirname_unique_filename) simp_all
  from save_bar_chart_ok [where render = example_render and w = ?x2, OF drawn2 d2 nonempty dir2]
  obtain u2 where u2: "save_bar_chart example_render ''LIME'' (Some ''Bert'') ?x2 = (u2, Inr ())"
    "saved u2 = saved ?x2
       @ [(unique_filename (fsys ?x2) (save_path_of ''LIME'' (Some ''Bert'')) ''.png'', fig ?x2)]"
    by blast
  have loop: "eval_loop steady_score example_render (Some ''Bert'') () 0.05
                [(''SHAP'', [(''base'', evS)]), (''LIME'', [(''base'', evL)])] w2 = (u2, Inr ())"
    by (simp only: eval_loop.simps s1 u1(1) s2 u2(1) prod.case sum.case)
  have run: "eval_models example_loader example_class_name steady_score example_render
               ''./ckpts'' () [SHAP, LIME] () () 0.05 ?w = (u2, Inr ())"
    by (simp only: eval_models_def h1 h2 loop prod.case sum.case)
  have log: "saved u2
      = [(unique_filename (fsys ?x1) (save_path_of ''SHAP'' (Some ''Bert'')) ''.png'', fig ?x1),
         (unique_filename (fsys ?x2) (save_path_of ''LIME'' (Some ''Bert'')) ''.png'', fig ?x2)]"
    using u2(2) u1(2) x1(2) v2(2) by simp
  have title2: "title (fig ?x2)
      = ''Infidelity of LIME Explanations for Differently Pruned Versions of Bert''"
    using x2(3) by (simp add: chart_title_def)
  from run log x1(3) x2(1,2) title2 show ?thesis
    by blast
qed

end
